theory Spec2Isabelle
  imports Complex_Main
begin

section \<open>Data model of program\_09.py\<close>

text \<open>
  The script works on two pandas frames. \<open>DataDF\<close> holds one row per day, indexed by the
  date, with the four float columns \<open>Precip\<close>, \<open>Max Temp\<close>, \<open>Min Temp\<close>, \<open>Wind Speed\<close>.
  \<open>ReplacedValuesDF\<close> is the 4 x 4 frame of counts, one row per check.

  A float cell is modelled as a \<open>real option\<close>: \<open>None\<close> is NumPy's NaN, \<open>Some x\<close> a
  finite number read as a real (infinities are outside the model). Comparisons of floats
  are exact, so they are the comparisons of the reals. The one arithmetic operation of the
  script, the subtraction of line 98, is rounded: \<open>float64_sub\<close> is the exact difference
  rounded to the nearest double, ties to even. Every comparison with NaN is false and
  every difference with NaN is NaN, as in NumPy.
  Rows are kept in file order and addressed by position; the date labels are taken to be
  distinct, so that aligning a selection of a column with that column is positional.
  An assignment through a column selection (\<open>DataDF['Precip'][index] = ...\<close>) writes into
  the frame, as the script relies on.
\<close>

type_synonym cell = "real option"
type_synonym series = "cell list"
type_synonym mask = "bool list"
type_synonym date = "nat \<times> nat \<times> nat"

datatype variable = Precip | MaxTemp | MinTemp | WindSpeed

record row =
  Date :: date
  precip :: cell
  max_temp :: cell
  min_temp :: cell
  wind_speed :: cell

type_synonym dataframe = "row list"
type_synonym ledger = "real list list"

datatype error = IndexError | FileNotFoundError | ParserError

text \<open>\<open>colNames[1:]\<close>: the data columns in positional order.\<close>

definition colNames :: "variable list" where
  "colNames = [Precip, MaxTemp, MinTemp, WindSpeed]"

fun value_of :: "variable \<Rightarrow> row \<Rightarrow> cell" where
  "value_of Precip r = precip r"
| "value_of MaxTemp r = max_temp r"
| "value_of MinTemp r = min_temp r"
| "value_of WindSpeed r = wind_speed r"

fun set_value :: "variable \<Rightarrow> cell \<Rightarrow> row \<Rightarrow> row" where
  "set_value Precip c r = r\<lparr>precip := c\<rparr>"
| "set_value MaxTemp c r = r\<lparr>max_temp := c\<rparr>"
| "set_value MinTemp c r = r\<lparr>min_temp := c\<rparr>"
| "set_value WindSpeed c r = r\<lparr>wind_speed := c\<rparr>"

text \<open>\<open>DataDF[label]\<close> and \<open>DataDF.iloc[:, i]\<close>: one column as a series.\<close>

definition column :: "variable \<Rightarrow> dataframe \<Rightarrow> series" where
  "column v df = map (value_of v) df"

definition iloc_label :: "nat \<Rightarrow> error + variable" where
  "iloc_label i = (if i < length colNames then Inr (colNames ! i) else Inl IndexError)"

subsection \<open>Series operations\<close>

definition eq_cell :: "cell \<Rightarrow> real \<Rightarrow> bool" where
  "eq_cell c k = (case c of None \<Rightarrow> False | Some x \<Rightarrow> x = k)"

definition lt_cell :: "cell \<Rightarrow> cell \<Rightarrow> bool" where
  "lt_cell a b = (case a of None \<Rightarrow> False
                   | Some x \<Rightarrow> (case b of None \<Rightarrow> False | Some y \<Rightarrow> x < y))"

text \<open>
  IEEE 754 binary64 rounding of a real: \<open>binade x\<close> is the exponent of \<open>x\<close> (at least -1022,
  where the subnormal numbers begin), a double of that binade is a multiple of
  \<open>2 powi (binade x - 52)\<close>, and \<open>round64\<close> takes the nearest such multiple, the even
  one on a tie. Overflow to infinity is not modelled.
\<close>

definition round_even :: "real \<Rightarrow> int" where
  "round_even y =
     (let f = \<lfloor>y\<rfloor>; d = y - of_int f
      in if d < 1 / 2 then f else if 1 / 2 < d then f + 1 else if even f then f else f + 1)"

definition binade :: "real \<Rightarrow> int" where
  "binade x = max (- 1022) \<lfloor>log 2 \<bar>x\<bar>\<rfloor>"

definition round64 :: "real \<Rightarrow> real" where
  "round64 x =
     of_int (round_even (x / power_int 2 (binade x - 52))) * power_int 2 (binade x - 52)"

definition float64_sub :: "real \<Rightarrow> real \<Rightarrow> real" where
  "float64_sub a b = round64 (a - b)"

definition sub_cell :: "cell \<Rightarrow> cell \<Rightarrow> cell" where
  "sub_cell a b = (case a of None \<Rightarrow> None
                    | Some x \<Rightarrow> (case b of None \<Rightarrow> None
                                | Some y \<Rightarrow> Some (float64_sub x y)))"

definition lt_scalar :: "series \<Rightarrow> real \<Rightarrow> mask" where
  "lt_scalar s k = map (\<lambda>c. lt_cell c (Some k)) s"

definition gt_scalar :: "series \<Rightarrow> real \<Rightarrow> mask" where
  "gt_scalar s k = map (\<lambda>c. lt_cell (Some k) c) s"

definition lt_series :: "series \<Rightarrow> series \<Rightarrow> mask" where
  "lt_series s t = map2 lt_cell s t"

definition sub_series :: "series \<Rightarrow> series \<Rightarrow> series" where
  "sub_series s t = map2 sub_cell s t"

definition or_mask :: "mask \<Rightarrow> mask \<Rightarrow> mask" where
  "or_mask m n = map2 (\<or>) m n"

text \<open>\<open>index.sum()\<close>: the number of true entries.\<close>

definition mask_sum :: "mask \<Rightarrow> nat" where
  "mask_sum m = length (filter id m)"

text \<open>\<open>DataDF[v][index] = np.nan\<close>.\<close>

definition assign_nan :: "variable \<Rightarrow> mask \<Rightarrow> dataframe \<Rightarrow> dataframe" where
  "assign_nan v m df = map2 (\<lambda>b r. if b then set_value v None r else r) m df"

text \<open>
  \<open>DataDF[v][index] = s[index]\<close>, with \<open>s\<close> a series taken from the frame beforehand: each
  selected row receives the value \<open>s\<close> has in that row.
\<close>

definition assign_series :: "variable \<Rightarrow> mask \<Rightarrow> series \<Rightarrow> dataframe \<Rightarrow> dataframe" where
  "assign_series v m s df =
     map2 (\<lambda>b (c, r). if b then set_value v c r else r) m (zip s df)"

subsection \<open>The ledger \<open>ReplacedValuesDF\<close>\<close>

text \<open>
  The ledger is a list of rows of cells, row \<open>k\<close> belonging to check \<open>k + 1\<close>. Its cells are
  floats that only ever hold \<open>0.0\<close> or a count \<open>index.sum()\<close>, read here as reals. The
  checks take the ledger as an argument, so its shape is a property (\<open>ledger_shape\<close>), not
  part of the type: on a smaller ledger an assignment raises.
\<close>

definition ledger_shape :: "ledger \<Rightarrow> bool" where
  "ledger_shape led = (length led = 4 \<and> list_all (\<lambda>r. length r = 4) led)"

text \<open>\<open>ReplacedValuesDF.iloc[r, c] = n\<close>; pandas raises IndexError outside the frame.\<close>

definition iloc_set :: "nat \<Rightarrow> nat \<Rightarrow> nat \<Rightarrow> ledger \<Rightarrow> error + ledger" where
  "iloc_set r c n led =
     (if r < length led \<and> c < length (led ! r)
      then Inr (led[r := (led ! r)[c := real n]])
      else Inl IndexError)"

definition new_ledger :: ledger where
  "new_ledger = replicate 4 (replicate (length colNames) 0)"

section \<open>The loader\<close>

text \<open>
  \<open>ReadData\<close> calls \<open>pd.read_csv\<close> on the literal path \<open>DataQualityChecking.txt\<close>. The
  file system is a map from paths to file contents, and the library parser is a parameter
  \<open>read_csv\<close> from contents to a frame or an error. The parameter \<open>fileName\<close> is not
  used by the body.
\<close>

definition ReadData ::
  "('f \<Rightarrow> error + dataframe) \<Rightarrow> (string \<rightharpoonup> 'f) \<Rightarrow> string \<Rightarrow> error + (dataframe \<times> ledger)" where
  "ReadData read_csv fs fileName =
     (case fs ''DataQualityChecking.txt'' of
        None \<Rightarrow> Inl FileNotFoundError
      | Some f \<Rightarrow> (case read_csv f of
                    Inl e \<Rightarrow> Inl e
                  | Inr DataDF \<Rightarrow> Inr (DataDF, new_ledger)))"

section \<open>The four checks\<close>

text \<open>
  \<open>Check01_RemoveNoDataValues\<close>, lines 43 and 44: the frame-wide mask \<open>DataDF == -999\<close> is
  set to NaN and the function returns. The loop of lines 46 and 47, which would store
  \<open>DataDF.iloc[:, i].isna().sum()\<close> in row 0 of the ledger, follows that \<open>return\<close> and is
  never executed, so it has no counterpart in the model.
\<close>

definition eq_frame :: "dataframe \<Rightarrow> real \<Rightarrow> (variable \<Rightarrow> bool) list" where
  "eq_frame df k = map (\<lambda>r v. eq_cell (value_of v r) k) df"

definition assign_frame_nan :: "(variable \<Rightarrow> bool) list \<Rightarrow> dataframe \<Rightarrow> dataframe" where
  "assign_frame_nan ms df =
     map2 (\<lambda>m r. fold (\<lambda>v r'. if m v then set_value v None r' else r') colNames r) ms df"

definition Check01_RemoveNoDataValues ::
  "dataframe \<Rightarrow> ledger \<Rightarrow> error + (dataframe \<times> ledger)" where
  "Check01_RemoveNoDataValues DataDF ReplacedValuesDF =
     Inr (assign_frame_nan (eq_frame DataDF (- 999)) DataDF, ReplacedValuesDF)"

text \<open>The mask, the count and the replacement of one column of \<open>Check02_GrossErrors\<close>.\<close>

definition gross_index :: "variable \<Rightarrow> real \<Rightarrow> real \<Rightarrow> dataframe \<Rightarrow> mask" where
  "gross_index v lo hi df = or_mask (lt_scalar (column v df) lo) (gt_scalar (column v df) hi)"

fun Check02_loop :: "nat list \<Rightarrow> dataframe \<Rightarrow> ledger \<Rightarrow> error + (dataframe \<times> ledger)" where
  "Check02_loop [] df led = Inr (df, led)"
| "Check02_loop (i # rest) df led =
     (case iloc_label i of
        Inl e \<Rightarrow> Inl e
      | Inr v \<Rightarrow>
          (let index = gross_index v (- 25) 35 df in
           case iloc_set 1 i (mask_sum index) led of
             Inl e \<Rightarrow> Inl e
           | Inr led' \<Rightarrow> Check02_loop rest (assign_nan v index df) led'))"

definition Check02_GrossErrors ::
  "dataframe \<Rightarrow> ledger \<Rightarrow> error + (dataframe \<times> ledger)" where
  "Check02_GrossErrors DataDF ReplacedValuesDF =
     (let index = gross_index Precip 0 25 DataDF in
      case iloc_set 1 0 (mask_sum index) ReplacedValuesDF of
        Inl e \<Rightarrow> Inl e
      | Inr led1 \<Rightarrow>
          (let df1 = assign_nan Precip index DataDF in
           case Check02_loop [1..<3] df1 led1 of
             Inl e \<Rightarrow> Inl e
           | Inr (df2, led2) \<Rightarrow>
               (let index = gross_index WindSpeed 0 10 df2 in
                case iloc_set 1 3 (mask_sum index) led2 of
                  Inl e \<Rightarrow> Inl e
                | Inr led3 \<Rightarrow> Inr (assign_nan WindSpeed index df2, led3))))"

definition swap_index :: "dataframe \<Rightarrow> mask" where
  "swap_index df = lt_series (column MaxTemp df) (column MinTemp df)"

text \<open>
  In \<open>Check03_TmaxTminSwapped\<close> both right-hand sides of the tuple assignment are
  evaluated, as copies, before either column is written.
\<close>

definition Check03_TmaxTminSwapped ::
  "dataframe \<Rightarrow> ledger \<Rightarrow> error + (dataframe \<times> ledger)" where
  "Check03_TmaxTminSwapped DataDF ReplacedValuesDF =
     (let index = swap_index DataDF in
      case iloc_set 2 1 (mask_sum index) ReplacedValuesDF of
        Inl e \<Rightarrow> Inl e
      | Inr led1 \<Rightarrow>
          (case iloc_set 2 2 (mask_sum index) led1 of
             Inl e \<Rightarrow> Inl e
           | Inr led2 \<Rightarrow>
               (let from_min = column MinTemp DataDF;
                    from_max = column MaxTemp DataDF;
                    df1 = assign_series MaxTemp index from_min DataDF;
                    df2 = assign_series MinTemp index from_max df1
                in Inr (df2, led2))))"

definition range_index :: "dataframe \<Rightarrow> mask" where
  "range_index df = gt_scalar (sub_series (column MaxTemp df) (column MinTemp df)) 25"

definition Check04_TmaxTminRange ::
  "dataframe \<Rightarrow> ledger \<Rightarrow> error + (dataframe \<times> ledger)" where
  "Check04_TmaxTminRange DataDF ReplacedValuesDF =
     (let index = range_index DataDF in
      case iloc_set 3 1 (mask_sum index) ReplacedValuesDF of
        Inl e \<Rightarrow> Inl e
      | Inr led1 \<Rightarrow>
          (case iloc_set 3 2 (mask_sum index) led1 of
             Inl e \<Rightarrow> Inl e
           | Inr led2 \<Rightarrow>
               Inr (assign_nan MinTemp index (assign_nan MaxTemp index DataDF), led2)))"

section \<open>The driver\<close>

definition and_then ::
  "error + 'a \<Rightarrow> ('a \<Rightarrow> error + 'b) \<Rightarrow> error + 'b" where
  "and_then x f = (case x of Inl e \<Rightarrow> Inl e | Inr a \<Rightarrow> f a)"

text \<open>Lines 120 to 132: the four checks in order, on the frame and ledger of the loader.\<close>

definition run_checks :: "dataframe \<Rightarrow> ledger \<Rightarrow> error + (dataframe \<times> ledger)" where
  "run_checks DataDF ReplacedValuesDF =
     and_then (Check01_RemoveNoDataValues DataDF ReplacedValuesDF) (\<lambda>(df1, led1).
     and_then (Check02_GrossErrors df1 led1) (\<lambda>(df2, led2).
     and_then (Check03_TmaxTminSwapped df2 led2) (\<lambda>(df3, led3).
     Check04_TmaxTminRange df3 led3)))"

text \<open>
  Lines 115 to 139: load, check, and load again for the uncorrected copy. The result is
  the corrected frame, the original frame and the ledger; plotting and writing the two
  output files are left out.
\<close>

definition main ::
  "('f \<Rightarrow> error + dataframe) \<Rightarrow> (string \<rightharpoonup> 'f) \<Rightarrow> error + (dataframe \<times> dataframe \<times> ledger)" where
  "main read_csv fs =
     (let fileName = ''DataQualityChecking.txt'' in
      and_then (ReadData read_csv fs fileName) (\<lambda>(DataDF, ReplacedValuesDF).
      and_then (run_checks DataDF ReplacedValuesDF) (\<lambda>(CorrectedDataDF, ReplacedValuesDF).
      and_then (ReadData read_csv fs fileName) (\<lambda>(OriginalDataDF, _).
      Inr (CorrectedDataDF, OriginalDataDF, ReplacedValuesDF)))))"

section \<open>Notions used to state the properties\<close>

text \<open>
  \<open>isna_sum\<close> is \<open>DataDF.iloc[:, i].isna().sum()\<close>, the number of NaN entries of a column.
  \<open>cell_changes\<close> counts the cells whose value differs between two frames of the same
  length. \<open>valid_range\<close> is the table of admissible ranges (the comment of line 56) and
  \<open>gross_error\<close> says that a cell holds a number strictly outside the range of its
  variable.
\<close>

definition isna_sum :: "variable \<Rightarrow> dataframe \<Rightarrow> nat" where
  "isna_sum v df = mask_sum (map (\<lambda>c. c = None) (column v df))"

definition cell_changes :: "dataframe \<Rightarrow> dataframe \<Rightarrow> nat" where
  "cell_changes df df' =
     sum_list (map2 (\<lambda>r r'. length (filter (\<lambda>v. value_of v r \<noteq> value_of v r') colNames))
                 df df')"

fun valid_range :: "variable \<Rightarrow> real \<times> real" where
  "valid_range Precip = (0, 25)"
| "valid_range MaxTemp = (- 25, 35)"
| "valid_range MinTemp = (- 25, 35)"
| "valid_range WindSpeed = (0, 10)"

definition gross_error :: "variable \<Rightarrow> cell \<Rightarrow> bool" where
  "gross_error v c =
     (case c of None \<Rightarrow> False
      | Some x \<Rightarrow> x < fst (valid_range v) \<or> snd (valid_range v) < x)"

subsection \<open>What each check does to one row\<close>

text \<open>
  Seen row by row, Check 1 is \<open>sentinel_row (- 999)\<close>, Check 2 is \<open>gross_rows\<close>, Check 3
  is \<open>swap_row\<close> and Check 4 is \<open>range_row\<close>; \<open>swapped\<close> and \<open>spread_fails\<close> are the
  entries of the masks of Checks 3 and 4. That the checks are these maps is proved below.
\<close>

definition out_of_range :: "real \<Rightarrow> real \<Rightarrow> cell \<Rightarrow> bool" where
  "out_of_range lo hi c = (lt_cell c (Some lo) \<or> lt_cell (Some hi) c)"

definition sentinel_row :: "real \<Rightarrow> row \<Rightarrow> row" where
  "sentinel_row k r =
     fold (\<lambda>v r'. if eq_cell (value_of v r) k then set_value v None r' else r') colNames r"

definition gross_row :: "variable \<Rightarrow> real \<Rightarrow> real \<Rightarrow> row \<Rightarrow> row" where
  "gross_row v lo hi r = (if out_of_range lo hi (value_of v r) then set_value v None r else r)"

definition gross_count :: "variable \<Rightarrow> real \<Rightarrow> real \<Rightarrow> dataframe \<Rightarrow> nat" where
  "gross_count v lo hi df = length (filter (\<lambda>r. out_of_range lo hi (value_of v r)) df)"

definition gross_rows :: "row \<Rightarrow> row" where
  "gross_rows = gross_row WindSpeed 0 10 \<circ> gross_row MinTemp (- 25) 35 \<circ>
                gross_row MaxTemp (- 25) 35 \<circ> gross_row Precip 0 25"

definition swapped :: "row \<Rightarrow> bool" where
  "swapped r = lt_cell (max_temp r) (min_temp r)"

definition swap_row :: "row \<Rightarrow> row" where
  "swap_row r = (if swapped r then r\<lparr>max_temp := min_temp r, min_temp := max_temp r\<rparr> else r)"

definition swap_count :: "dataframe \<Rightarrow> nat" where
  "swap_count df = length (filter swapped df)"

definition spread_fails :: "row \<Rightarrow> bool" where
  "spread_fails r = lt_cell (Some 25) (sub_cell (max_temp r) (min_temp r))"

definition range_row :: "row \<Rightarrow> row" where
  "range_row r = (if spread_fails r then r\<lparr>max_temp := None, min_temp := None\<rparr> else r)"

definition range_count :: "dataframe \<Rightarrow> nat" where
  "range_count df = length (filter spread_fails df)"

subsection \<open>Example frames\<close>

text \<open>
  \<open>example_row\<close> is the row \<open>2020-01-01 -999 10 20 5\<close>. \<open>gross_example\<close> has values at
  and just outside the bounds of Check 2, \<open>swap_example\<close> and \<open>range_example\<close> have the
  cases of Checks 3 and 4, \<open>hot_row\<close> is a day with maximum 40 and minimum 0,
  \<open>tie_row\<close> is a day with maximum 35.0 and minimum 9.999999999999998 (the double
  below 10), and
  \<open>mixed_example\<close> is a file of three days on which every check changes something;
  \<open>example_files\<close> is a file system holding it under the name the loader reads.
\<close>

definition example_row :: row where
  "example_row = \<lparr>Date = (2020, 1, 1), precip = Some (- 999), max_temp = Some 10,
                   min_temp = Some 20, wind_speed = Some 5\<rparr>"

definition gross_example :: dataframe where
  "gross_example =
     [\<lparr>Date = (2020, 1, 1), precip = Some 0, max_temp = Some 35, min_temp = Some (- 25),
        wind_speed = Some 10\<rparr>,
      \<lparr>Date = (2020, 1, 2), precip = Some 25, max_temp = Some (- 25), min_temp = Some 35,
        wind_speed = Some 0\<rparr>,
      \<lparr>Date = (2020, 1, 3), precip = Some (- (1 / 10000)), max_temp = Some 40,
        min_temp = None, wind_speed = Some (21 / 2)\<rparr>,
      \<lparr>Date = (2020, 1, 4), precip = Some (250001 / 10000), max_temp = None,
        min_temp = Some (- 30), wind_speed = None\<rparr>]"

definition swap_example :: dataframe where
  "swap_example =
     [\<lparr>Date = (2020, 1, 1), precip = None, max_temp = Some 10, min_temp = Some 20,
        wind_speed = Some 5\<rparr>,
      \<lparr>Date = (2020, 1, 2), precip = Some 1, max_temp = Some 20, min_temp = Some 10,
        wind_speed = Some 5\<rparr>,
      \<lparr>Date = (2020, 1, 3), precip = Some 1, max_temp = None, min_temp = Some 5,
        wind_speed = Some 5\<rparr>,
      \<lparr>Date = (2020, 1, 4), precip = Some 1, max_temp = Some 7, min_temp = Some 7,
        wind_speed = None\<rparr>]"

definition tie_row :: row where
  "tie_row = \<lparr>Date = (2020, 7, 2), precip = Some 0, max_temp = Some 35,
               min_temp = Some (10 - 1 / 2 ^ 49), wind_speed = Some 2\<rparr>"

definition range_example :: dataframe where
  "range_example =
     [\<lparr>Date = (2020, 1, 1), precip = None, max_temp = Some 30, min_temp = Some 0,
        wind_speed = Some 5\<rparr>,
      \<lparr>Date = (2020, 1, 2), precip = Some 1, max_temp = Some 25, min_temp = Some 0,
        wind_speed = Some 5\<rparr>,
      \<lparr>Date = (2020, 1, 3), precip = Some 1, max_temp = None, min_temp = Some (- 20),
        wind_speed = Some 5\<rparr>,
      \<lparr>Date = (2020, 1, 4), precip = Some 1, max_temp = Some 30, min_temp = None,
        wind_speed = None\<rparr>,
      tie_row]"

definition hot_row :: row where
  "hot_row = \<lparr>Date = (2020, 7, 1), precip = Some 0, max_temp = Some 40, min_temp = Some 0,
               wind_speed = Some 2\<rparr>"

definition mixed_example :: dataframe where
  "mixed_example =
     [example_row,
      \<lparr>Date = (2020, 1, 2), precip = Some 30, max_temp = Some 40, min_temp = Some 0,
        wind_speed = None\<rparr>,
      \<lparr>Date = (2020, 1, 3), precip = Some 2, max_temp = Some 30, min_temp = Some (- 10),
        wind_speed = Some 3\<rparr>]"

definition example_files :: "string \<rightharpoonup> dataframe" where
  "example_files = [''DataQualityChecking.txt'' \<mapsto> mixed_example]"

section \<open>Rounding to the nearest double\<close>

lemma round_even_ge: "of_int n \<le> y \<Longrightarrow> n \<le> round_even y"
proof -
  assume "of_int n \<le> y"
  then have "n \<le> \<lfloor>y\<rfloor>" by (simp add: le_floor_iff)
  then show ?thesis by (auto simp: round_even_def Let_def)
qed

lemma round_even_le: "y \<le> of_int n \<Longrightarrow> round_even y \<le> n"
proof -
  assume a: "y \<le> of_int n"
  show ?thesis
  proof (cases "y = of_int n")
    case True
    then show ?thesis by (simp add: round_even_def Let_def)
  next
    case False
    with a have "y < of_int n" by simp
    then have "\<lfloor>y\<rfloor> < n" by (simp add: floor_less_iff)
    then show ?thesis by (auto simp: round_even_def Let_def)
  qed
qed

lemma round_even_tie_down:
  assumes "even n" "y \<le> of_int n + 1 / 2"
  shows "round_even y \<le> n"
proof (cases "y < of_int n")
  case True
  then show ?thesis using round_even_le[of y n] by simp
next
  case False
  then have "of_int n \<le> y" "y < of_int n + 1" using assms(2) by simp_all
  then have f: "\<lfloor>y\<rfloor> = n" by (simp add: floor_eq_iff)
  have "y - of_int n \<le> 1 / 2" using assms(2) by simp
  then show ?thesis using assms(1) f by (auto simp: round_even_def Let_def)
qed

lemma round_even_above:
  assumes "of_int n + 1 / 2 < y"
  shows "n + 1 \<le> round_even y"
proof (cases "of_int n + 1 \<le> y")
  case True
  then have "of_int (n + 1) \<le> y" by simp
  then show ?thesis by (rule round_even_ge)
next
  case False
  then have "of_int n \<le> y" "y < of_int n + 1" using assms by simp_all
  then have f: "\<lfloor>y\<rfloor> = n" by (simp add: floor_eq_iff)
  have "1 / 2 < y - of_int n" using assms by simp
  then show ?thesis using f by (auto simp: round_even_def Let_def)
qed

lemma binade_upper:
  assumes "0 < x"
  shows "x < power_int 2 (binade x + 1)"
proof -
  let ?k = "\<lfloor>log 2 x\<rfloor>"
  have "x < 2 powr (of_int ?k + 1)"
    using floor_log_eq_powr_iff[of x 2 ?k] assms by simp
  also have "\<dots> = power_int 2 (?k + 1)"
    using powr_real_of_int'[of 2 "?k + 1"] by simp
  also have "\<dots> \<le> power_int 2 (binade x + 1)"
    using assms by (intro power_int_increasing) (simp_all add: binade_def)
  finally show ?thesis .
qed

lemma binade_lower:
  assumes "0 < x" "- 1022 < binade x"
  shows "power_int 2 (binade x) \<le> x"
proof -
  let ?k = "\<lfloor>log 2 x\<rfloor>"
  have b: "binade x = ?k" using assms by (simp add: binade_def max_def split: if_splits)
  have "2 powr (of_int ?k) \<le> x"
    using floor_log_eq_powr_iff[of x 2 ?k] assms(1) by simp
  moreover have "2 powr (of_int ?k) = power_int (2::real) ?k"
    using powr_real_of_int'[of 2 ?k] by simp
  ultimately show ?thesis by (simp add: b)
qed

lemma binade_ge: "- 1022 \<le> binade x"
  by (simp add: binade_def)


lemma powi_shift: "power_int (2::real) (k + int n) = 2 ^ n * power_int 2 k"
  by (simp add: power_int_add)

lemma round64_nonpos:
  assumes "x \<le> 0"
  shows "round64 x \<le> 0"
proof -
  let ?q = "power_int (2::real) (binade x - 52)"
  have "x / ?q \<le> of_int 0" using assms by (simp add: divide_nonpos_pos)
  then have "round_even (x / ?q) \<le> 0" by (rule round_even_le)
  then have "of_int (round_even (x / ?q)) * ?q \<le> 0"
    by (simp add: mult_nonpos_nonneg)
  then show ?thesis by (simp add: round64_def)
qed

lemma round64_upper:
  assumes "0 < x"
  shows "round64 x \<le> power_int 2 (binade x + 1)"
proof -
  let ?q = "power_int (2::real) (binade x - 52)"
  have "power_int (2::real) (binade x + 1) = power_int 2 ((binade x - 52) + int 53)"
    by (rule arg_cong[where f = "power_int 2"]) simp
  also have "\<dots> = 2 ^ 53 * ?q" by (rule powi_shift)
  finally have split: "power_int (2::real) (binade x + 1) = 2 ^ 53 * ?q" .
  have "x < 2 ^ 53 * ?q" using binade_upper[OF assms] by (simp only: split)
  then have "x / ?q \<le> of_int (2 ^ 53)"
    by (simp add: pos_divide_le_eq)
  then have "round_even (x / ?q) \<le> 2 ^ 53" by (rule round_even_le)
  then have "(of_int (round_even (x / ?q)) :: real) \<le> of_int (2 ^ 53)"
    by (simp only: of_int_le_iff)
  then have "of_int (round_even (x / ?q)) * ?q \<le> 2 ^ 53 * ?q"
    by (simp add: mult_right_mono)
  then show ?thesis by (simp only: round64_def split)
qed

lemma round64_lower:
  assumes "0 < x" "- 1022 < binade x"
  shows "power_int 2 (binade x) \<le> round64 x"
proof -
  let ?q = "power_int (2::real) (binade x - 52)"
  have "power_int (2::real) (binade x) = power_int 2 ((binade x - 52) + int 52)"
    by (rule arg_cong[where f = "power_int 2"]) simp
  also have "\<dots> = 2 ^ 52 * ?q" by (rule powi_shift)
  finally have split: "power_int (2::real) (binade x) = 2 ^ 52 * ?q" .
  have "2 ^ 52 * ?q \<le> x" using binade_lower[OF assms] by (simp only: split)
  then have "of_int (2 ^ 52) \<le> x / ?q"
    by (simp add: pos_le_divide_eq)
  then have "2 ^ 52 \<le> round_even (x / ?q)" by (rule round_even_ge)
  then have "(of_int (2 ^ 52) :: real) \<le> of_int (round_even (x / ?q))"
    by (simp only: of_int_le_iff)
  then have "2 ^ 52 * ?q \<le> of_int (round_even (x / ?q)) * ?q"
    by (simp add: mult_right_mono)
  then show ?thesis by (simp only: round64_def split)
qed

lemma round64_binade4:
  assumes "binade x = 4"
  shows "round64 x = of_int (round_even (x * 2 ^ 48)) / 2 ^ 48"
  by (simp add: round64_def assms)

text \<open>
  The threshold of Check 4 in exact terms. The doubles next to 25 are \<open>25 - 1 / 2 ^ 49\<close>
  and \<open>25 + 1 / 2 ^ 48\<close>; the tie \<open>25 + 1 / 2 ^ 49\<close> rounds to 25, whose last bit is even.
\<close>

lemma round64_gt_25: "25 < round64 x \<longleftrightarrow> 25 + 1 / 2 ^ 49 < x"
proof
  assume big: "25 + 1 / 2 ^ 49 < x"
  then have pos: "0 < x" by (simp add: pos_add_strict[THEN less_trans, rotated] field_simps)
  have x16: "16 < x" using big by (simp add: field_simps)
  have e4: "4 \<le> binade x"
  proof (rule ccontr)
    assume "\<not> 4 \<le> binade x"
    then have "binade x + 1 \<le> 4" by simp
    then have "power_int (2::real) (binade x + 1) \<le> power_int 2 4"
      by (intro power_int_increasing) simp_all
    with binade_upper[OF pos] have "x < 16" by simp
    with x16 show False by simp
  qed
  show "25 < round64 x"
  proof (cases "binade x = 4")
    case True
    have "of_int (25 * 2 ^ 48) + 1 / 2 < x * 2 ^ 48"
      using big by (simp add: field_simps)
    then have "25 * 2 ^ 48 + 1 \<le> round_even (x * 2 ^ 48)"
      by (rule round_even_above)
    then have "(of_int (25 * 2 ^ 48 + 1) :: real) \<le> of_int (round_even (x * 2 ^ 48))"
      by (simp only: of_int_le_iff)
    then have "(25 * 2 ^ 48 + 1) / 2 ^ 48 \<le> round64 x"
      by (simp add: round64_binade4[OF True] divide_right_mono)
    then show ?thesis by (simp add: field_simps)
  next
    case False
    with e4 have e5: "5 \<le> binade x" by simp
    then have "power_int (2::real) 5 \<le> power_int 2 (binade x)"
      by (intro power_int_increasing) simp_all
    moreover have "power_int 2 (binade x) \<le> round64 x"
      using e5 by (intro round64_lower[OF pos]) simp
    ultimately show ?thesis by simp
  qed
next
  assume r: "25 < round64 x"
  show "25 + 1 / 2 ^ 49 < x"
  proof (rule ccontr)
    assume "\<not> 25 + 1 / 2 ^ 49 < x"
    then have small: "x \<le> 25 + 1 / 2 ^ 49" by simp
    have pos: "0 < x"
      using round64_nonpos[of x] r by (cases "0 < x") simp_all
    have e4: "binade x \<le> 4"
    proof (rule ccontr)
      assume "\<not> binade x \<le> 4"
      then have e5: "5 \<le> binade x" by simp
      then have "power_int (2::real) 5 \<le> power_int 2 (binade x)"
        by (intro power_int_increasing) simp_all
      moreover have "power_int 2 (binade x) \<le> x"
        using e5 by (intro binade_lower[OF pos]) simp
      ultimately have "32 \<le> x" by simp
      with small show False by (simp add: field_simps)
    qed
    show False
    proof (cases "binade x = 4")
      case True
      have "x * 2 ^ 48 \<le> of_int (25 * 2 ^ 48) + 1 / 2"
        using small by (simp add: field_simps)
      moreover have "even (25 * 2 ^ 48 :: int)" by simp
      ultimately have "round_even (x * 2 ^ 48) \<le> 25 * 2 ^ 48"
        by (intro round_even_tie_down)
      then have "(of_int (round_even (x * 2 ^ 48)) :: real) \<le> of_int (25 * 2 ^ 48)"
        by (simp only: of_int_le_iff)
      then have "round64 x \<le> (25 * 2 ^ 48) / 2 ^ 48"
        by (simp add: round64_binade4[OF True] divide_right_mono)
      with r show False by simp
    next
      case False
      with e4 have "binade x + 1 \<le> 4" by simp
      then have "power_int (2::real) (binade x + 1) \<le> power_int 2 4"
        by (intro power_int_increasing) simp_all
      with round64_upper[OF pos] have "round64 x \<le> 16" by simp
      with r show False by simp
    qed
  qed
qed

lemma float64_sub_gt_25: "25 < float64_sub a b \<longleftrightarrow> 25 + 1 / 2 ^ 49 < a - b"
  by (simp only: float64_sub_def round64_gt_25)

lemma binade_eq:
  assumes "power_int 2 e \<le> x" "x < power_int 2 (e + 1)" "- 1022 \<le> e"
  shows "binade x = e"
proof -
  have pos: "0 < x"
    using assms(1) zero_less_power_int[of "2::real" e] by linarith
  have "2 powr (of_int e) \<le> x" "x < 2 powr (of_int e + 1)"
    using assms(1,2) powr_real_of_int'[of 2 e] powr_real_of_int'[of 2 "e + 1"] by simp_all
  then have "\<lfloor>log 2 x\<rfloor> = e"
    using floor_log_eq_powr_iff[of x 2 e] pos by simp
  then show ?thesis using assms(3) pos by (simp add: binade_def)
qed

text \<open>\<open>35.0 - 9.999999999999998\<close> is \<open>25.0\<close> in doubles, while the exact difference is above 25.\<close>

lemma float64_sub_tie: "float64_sub 35 (10 - 1 / 2 ^ 49) = 25"
proof -
  let ?x = "35 - (10 - 1 / 2 ^ 49) :: real"
  have b: "binade ?x = 4"
    by (rule binade_eq) simp_all
  have up: "round_even (?x * 2 ^ 48) \<le> 25 * 2 ^ 48"
    by (rule round_even_tie_down) simp_all
  have lo: "25 * 2 ^ 48 \<le> round_even (?x * 2 ^ 48)"
    by (rule round_even_ge) simp
  from up lo have re: "round_even (?x * 2 ^ 48) = 25 * 2 ^ 48" by (rule antisym)
  show ?thesis
    by (simp only: float64_sub_def round64_binade4[OF b] re) simp
qed

section \<open>Masks and assignments, row by row\<close>

lemma map2_same: "map2 f (map g xs) xs = map (\<lambda>x. f (g x) x) xs"
  by (induction xs) auto

lemma map2_same3:
  "map2 f (map p xs) (zip (map g xs) xs) = map (\<lambda>x. f (p x) (g x, x)) xs"
  by (induction xs) auto

lemma map2_map_map: "map2 f (map g xs) (map h xs) = map (\<lambda>x. f (g x) (h x)) xs"
  by (induction xs) auto

lemma map2_zip_maps:
  "map2 f (map p xs) (zip (map g xs) (map h xs)) = map (\<lambda>x. f (p x) (g x, h x)) xs"
  by (induction xs) auto

lemma mask_sum_map: "mask_sum (map p xs) = length (filter p xs)"
  by (simp add: mask_sum_def filter_map comp_def)

lemma gross_index_map:
  "gross_index v lo hi df = map (\<lambda>r. out_of_range lo hi (value_of v r)) df"
  by (simp add: gross_index_def or_mask_def lt_scalar_def gt_scalar_def column_def
      out_of_range_def map2_map_map)

lemma swap_index_map: "swap_index df = map swapped df"
  by (simp add: swap_index_def lt_series_def column_def map2_map_map swapped_def)

lemma range_index_map: "range_index df = map spread_fails df"
  by (simp add: range_index_def gt_scalar_def sub_series_def column_def map2_map_map
      spread_fails_def)

lemma assign_nan_map:
  "assign_nan v (map p df) df = map (\<lambda>r. if p r then set_value v None r else r) df"
  by (simp add: assign_nan_def map2_same)

lemma assign_gross: "assign_nan v (gross_index v lo hi df) df = map (gross_row v lo hi) df"
  by (simp add: gross_index_map assign_nan_map gross_row_def)

lemma mask_sum_gross: "mask_sum (gross_index v lo hi df) = gross_count v lo hi df"
  by (simp add: gross_index_map mask_sum_map gross_count_def)

lemma value_of_set_value:
  "value_of v (set_value w c r) = (if v = w then c else value_of v r)"
  by (cases v; cases w) simp_all

lemma Date_set_value: "Date (set_value w c r) = Date r"
  by (cases w) simp_all

lemma value_of_sentinel_row:
  "value_of v (sentinel_row k r) = (if eq_cell (value_of v r) k then None else value_of v r)"
  by (cases v) (simp_all add: sentinel_row_def colNames_def)

lemma Date_sentinel_row: "Date (sentinel_row k r) = Date r"
  by (simp add: sentinel_row_def colNames_def)

lemma value_of_gross_row:
  "value_of w (gross_row v lo hi r) =
     (if w = v \<and> out_of_range lo hi (value_of v r) then None else value_of w r)"
  by (simp add: gross_row_def value_of_set_value)

lemma Date_gross_row: "Date (gross_row v lo hi r) = Date r"
  by (simp add: gross_row_def Date_set_value)

lemma count_after_gross:
  "w \<noteq> v \<Longrightarrow>
   gross_count w lo hi (map (gross_row v lo' hi') df) = gross_count w lo hi df"
  by (simp add: gross_count_def filter_map comp_def value_of_gross_row del: value_of.simps)

section \<open>The ledger\<close>

lemma iloc_set_ok:
  "ledger_shape led \<Longrightarrow> r < 4 \<Longrightarrow> c < 4 \<Longrightarrow>
   iloc_set r c n led = Inr (led[r := (led ! r)[c := real n]])"
  by (auto simp: iloc_set_def ledger_shape_def list_all_length)

lemma ledger_shape_update:
  "ledger_shape led \<Longrightarrow> r < 4 \<Longrightarrow> ledger_shape (led[r := (led ! r)[c := x]])"
  by (auto simp: ledger_shape_def list_all_length nth_list_update)

lemma new_ledger_rows:
  "new_ledger = [[0, 0, 0, 0], [0, 0, 0, 0], [0, 0, 0, 0], [0, 0, 0, 0]]"
  by (simp add: new_ledger_def colNames_def eval_nat_numeral)

lemma ledger_shape_new: "ledger_shape new_ledger"
  by (simp add: new_ledger_rows ledger_shape_def)

lemma upt_1_3: "[1..<3] = [1, 2::nat]"
  by (simp add: upt_rec)

lemma iloc_label_simps: "iloc_label 1 = Inr MaxTemp" "iloc_label 2 = Inr MinTemp"
  by (simp_all add: iloc_label_def colNames_def)

section \<open>Each check as a map over the rows\<close>

lemma Check01_rows:
  "Check01_RemoveNoDataValues df led = Inr (map (sentinel_row (- 999)) df, led)"
  by (simp add: Check01_RemoveNoDataValues_def assign_frame_nan_def eq_frame_def map2_same
      sentinel_row_def)

lemma Check02_rows:
  assumes "ledger_shape led"
  shows "Check02_GrossErrors df led =
     Inr (map (gross_row WindSpeed 0 10 \<circ> gross_row MinTemp (- 25) 35 \<circ>
               gross_row MaxTemp (- 25) 35 \<circ> gross_row Precip 0 25) df,
          led[1 := (led ! 1)[0 := real (gross_count Precip 0 25 df),
                             1 := real (gross_count MaxTemp (- 25) 35 df),
                             2 := real (gross_count MinTemp (- 25) 35 df),
                             3 := real (gross_count WindSpeed 0 10 df)]])"
proof -
  let ?l1 = "led[1 := (led ! 1)[0 := real (gross_count Precip 0 25 df)]]"
  let ?d1 = "map (gross_row Precip 0 25) df"
  let ?l2 = "?l1[1 := (?l1 ! 1)[1 := real (gross_count MaxTemp (- 25) 35 df)]]"
  let ?d2 = "map (gross_row MaxTemp (- 25) 35) ?d1"
  let ?l3 = "?l2[1 := (?l2 ! 1)[2 := real (gross_count MinTemp (- 25) 35 df)]]"
  let ?d3 = "map (gross_row MinTemp (- 25) 35) ?d2"
  let ?l4 = "?l3[1 := (?l3 ! 1)[3 := real (gross_count WindSpeed 0 10 df)]]"
  have s1: "ledger_shape ?l1" using assms by (rule ledger_shape_update) simp
  have s2: "ledger_shape ?l2" using s1 by (rule ledger_shape_update) simp
  have s3: "ledger_shape ?l3" using s2 by (rule ledger_shape_update) simp
  have c1: "mask_sum (gross_index Precip 0 25 df) = gross_count Precip 0 25 df"
    by (simp add: mask_sum_gross)
  have c2: "mask_sum (gross_index MaxTemp (- 25) 35 ?d1) = gross_count MaxTemp (- 25) 35 df"
    by (simp add: mask_sum_gross count_after_gross del: map_map)
  have c3: "mask_sum (gross_index MinTemp (- 25) 35 ?d2) = gross_count MinTemp (- 25) 35 df"
    by (simp add: mask_sum_gross count_after_gross del: map_map)
  have c4: "mask_sum (gross_index WindSpeed 0 10 ?d3) = gross_count WindSpeed 0 10 df"
    by (simp add: mask_sum_gross count_after_gross del: map_map)
  have i1: "iloc_set 1 0 (gross_count Precip 0 25 df) led = Inr ?l1"
    using assms by (simp add: iloc_set_ok)
  have i2: "iloc_set 1 1 (gross_count MaxTemp (- 25) 35 df) ?l1 = Inr ?l2"
    using s1 by (simp add: iloc_set_ok)
  have i3: "iloc_set 1 2 (gross_count MinTemp (- 25) 35 df) ?l2 = Inr ?l3"
    using s2 by (simp add: iloc_set_ok)
  have i4: "iloc_set 1 3 (gross_count WindSpeed 0 10 df) ?l3 = Inr ?l4"
    using s3 by (simp add: iloc_set_ok)
  have loop: "Check02_loop [1..<3] ?d1 ?l1 = Inr (?d3, ?l3)"
    by (simp only: upt_1_3 Check02_loop.simps iloc_label_simps sum.case Let_def c2 c3 i2 i3
        assign_gross)
  have len: "length led = 4" using assms by (simp add: ledger_shape_def)
  have "Check02_GrossErrors df led = Inr (map (gross_row WindSpeed 0 10) ?d3, ?l4)"
    by (simp only: Check02_GrossErrors_def Let_def c1 i1 sum.case assign_gross loop
        prod.case c4 i4)
  then show ?thesis using len by (simp add: comp_def)
qed

lemma Check03_rows:
  assumes "ledger_shape led"
  shows "Check03_TmaxTminSwapped df led =
     Inr (map swap_row df,
          led[2 := (led ! 2)[1 := real (swap_count df), 2 := real (swap_count df)]])"
proof -
  let ?n = "swap_count df"
  let ?l1 = "led[2 := (led ! 2)[1 := real ?n]]"
  let ?l2 = "?l1[2 := (?l1 ! 2)[2 := real ?n]]"
  have cnt: "mask_sum (map swapped df) = ?n"
    by (simp add: mask_sum_map swap_count_def)
  have s1: "ledger_shape ?l1" using assms by (rule ledger_shape_update) simp
  have i1: "iloc_set 2 1 ?n led = Inr ?l1" using assms by (simp add: iloc_set_ok)
  have i2: "iloc_set 2 2 ?n ?l1 = Inr ?l2" using s1 by (simp add: iloc_set_ok)
  have a1: "assign_series MaxTemp (map swapped df) (column MinTemp df) df =
      map (\<lambda>r. if swapped r then set_value MaxTemp (min_temp r) r else r) df"
    by (simp add: assign_series_def column_def map2_same3)
  have a2: "assign_series MinTemp (map swapped df) (column MaxTemp df)
        (map (\<lambda>r. if swapped r then set_value MaxTemp (min_temp r) r else r) df) =
      map swap_row df"
    by (simp add: assign_series_def column_def map2_zip_maps swap_row_def)
  have len: "length led = 4" using assms by (simp add: ledger_shape_def)
  have "Check03_TmaxTminSwapped df led = Inr (map swap_row df, ?l2)"
    by (simp only: Check03_TmaxTminSwapped_def Let_def cnt i1 i2 sum.case swap_index_map a1 a2)
  then show ?thesis using len by simp
qed

lemma Check04_rows:
  assumes "ledger_shape led"
  shows "Check04_TmaxTminRange df led =
     Inr (map range_row df,
          led[3 := (led ! 3)[1 := real (range_count df), 2 := real (range_count df)]])"
proof -
  let ?n = "range_count df"
  let ?l1 = "led[3 := (led ! 3)[1 := real ?n]]"
  let ?l2 = "?l1[3 := (?l1 ! 3)[2 := real ?n]]"
  have cnt: "mask_sum (map spread_fails df) = ?n"
    by (simp add: mask_sum_map range_count_def)
  have s1: "ledger_shape ?l1" using assms by (rule ledger_shape_update) simp
  have i1: "iloc_set 3 1 ?n led = Inr ?l1" using assms by (simp add: iloc_set_ok)
  have i2: "iloc_set 3 2 ?n ?l1 = Inr ?l2" using s1 by (simp add: iloc_set_ok)
  have a1: "assign_nan MaxTemp (map spread_fails df) df =
      map (\<lambda>r. if spread_fails r then set_value MaxTemp None r else r) df"
    by (simp add: assign_nan_map)
  have a2: "assign_nan MinTemp (map spread_fails df)
        (map (\<lambda>r. if spread_fails r then set_value MaxTemp None r else r) df) =
      map range_row df"
    by (simp add: assign_nan_def map2_map_map range_row_def)
  have len: "length led = 4" using assms by (simp add: ledger_shape_def)
  have "Check04_TmaxTminRange df led = Inr (map range_row df, ?l2)"
    by (simp only: Check04_TmaxTminRange_def Let_def cnt i1 i2 sum.case range_index_map a1 a2)
  then show ?thesis using len by simp
qed

section \<open>Check 1 and the ledger row \<open>No Data\<close>\<close>

text \<open>
  Claim C1. Check 1 should replace every cell equal to the sentinel \<open>-999\<close> with missing
  and write, for each variable, the number of missing entries of its column into the
  ledger row \<open>No Data\<close>. On the frame holding the single row \<open>2020-01-01 -999 10 20 5\<close> and
  the ledger of the loader, the code replaces the precipitation, the column then has one
  missing entry, and the ledger comes back as it was, with 0 in \<open>No Data\<close> / precip: the
  function returns before the counting loop.
\<close>

theorem Check01_NoData_row_not_written:
  "Check01_RemoveNoDataValues [example_row] new_ledger =
     Inr ([example_row\<lparr>precip := None\<rparr>], new_ledger) \<and>
   isna_sum Precip [example_row\<lparr>precip := None\<rparr>] = 1 \<and>
   new_ledger ! 0 ! 0 = 0"
  by (simp add: Check01_rows sentinel_row_def colNames_def eq_cell_def example_row_def
      isna_sum_def column_def mask_sum_def new_ledger_rows)

section \<open>Ledger reconciliation\<close>

text \<open>
  Claim C2. For each check, the sum of its ledger row should equal the number of cells
  the check changed. On the frame holding the single row \<open>2020-01-01 -999 10 20 5\<close>,
  Check 1 changes one cell and leaves the row \<open>No Data\<close> with sum 0.
\<close>

theorem Check01_row_sum_is_not_change_count:
  "\<exists>df' led'. Check01_RemoveNoDataValues [example_row] new_ledger = Inr (df', led') \<and>
     sum_list (led' ! 0) = 0 \<and> cell_changes [example_row] df' = 1"
  by (simp add: Check01_rows sentinel_row_def colNames_def eq_cell_def example_row_def
      cell_changes_def new_ledger_rows)

section \<open>Check 2: the gross error filter\<close>

lemma out_of_range_gross_error:
  "out_of_range (fst (valid_range v)) (snd (valid_range v)) c = gross_error v c"
  by (cases c) (simp_all add: out_of_range_def gross_error_def lt_cell_def)

lemma gross_count_gross_error:
  "gross_count v (fst (valid_range v)) (snd (valid_range v)) df =
   length (filter (\<lambda>r. gross_error v (value_of v r)) df)"
  by (simp only: gross_count_def out_of_range_gross_error)

lemma value_of_gross_rows:
  "value_of w ((gross_row WindSpeed 0 10 \<circ> gross_row MinTemp (- 25) 35 \<circ>
               gross_row MaxTemp (- 25) 35 \<circ> gross_row Precip 0 25) r) =
   (if gross_error w (value_of w r) then None else value_of w r)"
  using out_of_range_gross_error[of w "value_of w r"]
  by (cases w) (simp_all add: value_of_gross_row del: value_of.simps)

lemma Date_gross_rows:
  "Date ((gross_row WindSpeed 0 10 \<circ> gross_row MinTemp (- 25) 35 \<circ>
               gross_row MaxTemp (- 25) 35 \<circ> gross_row Precip 0 25) r) = Date r"
  by (simp add: Date_gross_row)

lemma list4_update:
  "length xs = 4 \<Longrightarrow> xs[0 := a, 1 := b, 2 := c, 3 := d] = [a, b, c, d]"
  by (auto simp: length_Suc_conv eval_nat_numeral)

lemma ledger_row_length: "ledger_shape led \<Longrightarrow> r < 4 \<Longrightarrow> length (led ! r) = 4"
  by (simp add: ledger_shape_def list_all_length)

lemma Check02_ledger_row:
  assumes "ledger_shape led"
  shows "led[1 := (led ! 1)[0 := real (gross_count Precip 0 25 df),
                             1 := real (gross_count MaxTemp (- 25) 35 df),
                             2 := real (gross_count MinTemp (- 25) 35 df),
                             3 := real (gross_count WindSpeed 0 10 df)]] ! 1 =
         map (\<lambda>v. real (length (filter (\<lambda>r. gross_error v (value_of v r)) df))) colNames"
proof -
  have len: "length led = 4" using assms by (simp add: ledger_shape_def)
  have row: "length (led ! 1) = 4" using assms by (simp add: ledger_row_length)
  have g: "gross_count Precip 0 25 df = length (filter (\<lambda>r. gross_error Precip (value_of Precip r)) df)"
      "gross_count MaxTemp (- 25) 35 df = length (filter (\<lambda>r. gross_error MaxTemp (value_of MaxTemp r)) df)"
      "gross_count MinTemp (- 25) 35 df = length (filter (\<lambda>r. gross_error MinTemp (value_of MinTemp r)) df)"
      "gross_count WindSpeed 0 10 df = length (filter (\<lambda>r. gross_error WindSpeed (value_of WindSpeed r)) df)"
    using gross_count_gross_error[of Precip df] gross_count_gross_error[of MaxTemp df]
      gross_count_gross_error[of MinTemp df] gross_count_gross_error[of WindSpeed df]
    by simp_all
  show ?thesis using len
    by (simp only: nth_list_update_eq list4_update[OF row] g colNames_def list.map)
qed

text \<open>
  Claim C3. On a ledger of the 4 x 4 shape, \<open>Check02_GrossErrors\<close> returns normally. In
  every row and for every variable, a cell holding a number strictly outside the range of
  the variable (precip 0 to 25, both temperatures -25 to 35, wind speed 0 to 10) becomes
  missing and every other cell keeps its value; in particular a cell at a bound and a cell
  already missing are kept. Row \<open>Gross Error\<close> of the ledger receives, per variable, the
  number of cells holding a number strictly outside the range; a missing cell is not a
  gross error and is not counted. The dates are kept.
\<close>

theorem Check02_gross_error_filter:
  assumes "ledger_shape led"
  shows "\<exists>df' led'. Check02_GrossErrors df led = Inr (df', led') \<and> length df' = length df \<and>
    (\<forall>i<length df. Date (df' ! i) = Date (df ! i) \<and>
       (\<forall>v. value_of v (df' ! i) =
              (if gross_error v (value_of v (df ! i)) then None else value_of v (df ! i)))) \<and>
    (\<forall>i<length df. \<forall>v.
        value_of v (df ! i) = Some (fst (valid_range v)) \<or>
        value_of v (df ! i) = Some (snd (valid_range v)) \<or>
        value_of v (df ! i) = None \<longrightarrow> value_of v (df' ! i) = value_of v (df ! i)) \<and>
    led' ! 1 = map (\<lambda>v. real (length (filter (\<lambda>r. gross_error v (value_of v r)) df))) colNames"
proof -
  let ?G = "gross_row WindSpeed 0 10 \<circ> gross_row MinTemp (- 25) 35 \<circ>
               gross_row MaxTemp (- 25) 35 \<circ> gross_row Precip 0 25"
  have bound: "\<not> gross_error v (Some (fst (valid_range v)))"
       "\<not> gross_error v (Some (snd (valid_range v)))" "\<not> gross_error v None" for v
    by (cases v; simp add: gross_error_def)+
  have pt: "value_of v (map ?G df ! i) =
      (if gross_error v (value_of v (df ! i)) then None else value_of v (df ! i))"
    if "i < length df" for i v
    using that by (simp only: nth_map value_of_gross_rows)
  have dt: "Date (map ?G df ! i) = Date (df ! i)" if "i < length df" for i
    using that by (simp only: nth_map Date_gross_rows)
  have keep: "value_of v (map ?G df ! i) = value_of v (df ! i)"
    if "i < length df"
       "value_of v (df ! i) = Some (fst (valid_range v)) \<or>
        value_of v (df ! i) = Some (snd (valid_range v)) \<or> value_of v (df ! i) = None" for i v
    using that(2) bound[of v] by (auto simp only: pt[OF that(1)] split: if_splits)
  let ?L = "led[1 := (led ! 1)[0 := real (gross_count Precip 0 25 df),
                             1 := real (gross_count MaxTemp (- 25) 35 df),
                             2 := real (gross_count MinTemp (- 25) 35 df),
                             3 := real (gross_count WindSpeed 0 10 df)]]"
  have r: "Check02_GrossErrors df led = Inr (map ?G df, ?L)"
    by (rule Check02_rows[OF assms])
  have l: "length (map ?G df) = length df" by simp
  have p1: "\<forall>i<length df. Date (map ?G df ! i) = Date (df ! i) \<and>
       (\<forall>v. value_of v (map ?G df ! i) =
              (if gross_error v (value_of v (df ! i)) then None else value_of v (df ! i)))"
    using pt dt by blast
  have p2: "\<forall>i<length df. \<forall>v.
        value_of v (df ! i) = Some (fst (valid_range v)) \<or>
        value_of v (df ! i) = Some (snd (valid_range v)) \<or>
        value_of v (df ! i) = None \<longrightarrow> value_of v (map ?G df ! i) = value_of v (df ! i)"
    using keep by blast
  have c: "?L ! 1 = map (\<lambda>v. real (length (filter (\<lambda>r. gross_error v (value_of v r)) df))) colNames"
    by (rule Check02_ledger_row[OF assms])
  from r l p1 p2 c show ?thesis by blast
qed

text \<open>
  The claim on four rows: values at the bounds 0, 25, 35, -25 stay, the values -0.0001 and
  25.0001 of precip and 40 of the maximum temperature become missing, and missing cells
  are not counted.
\<close>

theorem Check02_gross_error_filter_witness:
  "ledger_shape new_ledger \<and>
   (\<exists>df' led'. Check02_GrossErrors gross_example new_ledger = Inr (df', led') \<and>
      map (\<lambda>i. precip (df' ! i)) [0, 1, 2, 3] = [Some 0, Some 25, None, None] \<and>
      map (\<lambda>i. max_temp (df' ! i)) [0, 1, 2, 3] = [Some 35, Some (- 25), None, None] \<and>
      led' ! 1 = [2, 1, 1, 1])"
proof -
  from Check02_gross_error_filter[OF ledger_shape_new, of gross_example]
  obtain df' led' where run: "Check02_GrossErrors gross_example new_ledger = Inr (df', led')"
    and pt: "\<forall>i<length gross_example. Date (df' ! i) = Date (gross_example ! i) \<and>
       (\<forall>v. value_of v (df' ! i) =
              (if gross_error v (value_of v (gross_example ! i)) then None
               else value_of v (gross_example ! i)))"
    and cnt: "led' ! 1 = map (\<lambda>v. real (length (filter (\<lambda>r. gross_error v (value_of v r))
                 gross_example))) colNames"
    by blast
  have p: "value_of v (df' ! i) =
              (if gross_error v (value_of v (gross_example ! i)) then None
               else value_of v (gross_example ! i))" if "i < 4" for i v
    using pt that by (simp add: gross_example_def)
  have a: "map (\<lambda>i. precip (df' ! i)) [0, 1, 2, 3] = [Some 0, Some 25, None, None]"
    using p[of 0 Precip] p[of 1 Precip] p[of 2 Precip] p[of 3 Precip]
    by (simp add: gross_example_def gross_error_def)
  have b: "map (\<lambda>i. max_temp (df' ! i)) [0, 1, 2, 3] = [Some 35, Some (- 25), None, None]"
    using p[of 0 MaxTemp] p[of 1 MaxTemp] p[of 2 MaxTemp] p[of 3 MaxTemp]
    by (simp add: gross_example_def gross_error_def)
  have c: "led' ! 1 = [2, 1, 1, 1]"
    unfolding cnt by (simp add: colNames_def gross_example_def gross_error_def)
  have "\<exists>df' led'. Check02_GrossErrors gross_example new_ledger = Inr (df', led') \<and>
      map (\<lambda>i. precip (df' ! i)) [0, 1, 2, 3] = [Some 0, Some 25, None, None] \<and>
      map (\<lambda>i. max_temp (df' ! i)) [0, 1, 2, 3] = [Some 35, Some (- 25), None, None] \<and>
      led' ! 1 = [2, 1, 1, 1]"
    by (rule exI[of _ df'], rule exI[of _ led'])
       (rule conjI[OF run conjI[OF a conjI[OF b c]]])
  with ledger_shape_new show ?thesis by (rule conjI)
qed

section \<open>Check 3: swapped temperatures\<close>

lemma swapped_iff:
  "swapped r = (\<exists>a b. max_temp r = Some a \<and> min_temp r = Some b \<and> a < b)"
  by (simp add: swapped_def lt_cell_def split: option.splits)

lemma swap_row_swapped:
  "max_temp r = Some a \<Longrightarrow> min_temp r = Some b \<Longrightarrow> a < b \<Longrightarrow>
   swap_row r = r\<lparr>max_temp := Some b, min_temp := Some a\<rparr>"
  by (simp add: swap_row_def swapped_iff)

lemma swap_row_same: "\<not> swapped r \<Longrightarrow> swap_row r = r"
  by (simp add: swap_row_def)

lemma swap_row_ordered:
  "max_temp (swap_row r) = Some a \<Longrightarrow> min_temp (swap_row r) = Some b \<Longrightarrow> b \<le> a"
  by (auto simp: swap_row_def swapped_def lt_cell_def split: if_splits)

lemma ledger_two_cells:
  assumes "ledger_shape led" "k < 4"
  shows "led[k := (led ! k)[1 := x, 2 := y]] ! k ! 1 = x"
    and "led[k := (led ! k)[1 := x, 2 := y]] ! k ! 2 = y"
  using assms by (simp_all add: ledger_shape_def list_all_length)

text \<open>
  Claim C4. On a ledger of the 4 x 4 shape, \<open>Check03_TmaxTminSwapped\<close> returns normally.
  A row whose two temperatures are present with the maximum below the minimum has the two
  exchanged; every other row, in particular one with a missing temperature, is returned as
  it was. Afterwards every row with both temperatures present has its maximum at least its
  minimum. The number of exchanged rows is written to the \<open>Max Temp\<close> and to the
  \<open>Min Temp\<close> column of row \<open>Swapped\<close>.
\<close>

theorem Check03_swap_correction:
  assumes "ledger_shape led"
  shows "\<exists>df' led'. Check03_TmaxTminSwapped df led = Inr (df', led') \<and>
    length df' = length df \<and>
    (\<forall>i<length df. \<forall>a b.
        max_temp (df ! i) = Some a \<and> min_temp (df ! i) = Some b \<and> a < b \<longrightarrow>
        df' ! i = (df ! i)\<lparr>max_temp := Some b, min_temp := Some a\<rparr>) \<and>
    (\<forall>i<length df.
        \<not> (\<exists>a b. max_temp (df ! i) = Some a \<and> min_temp (df ! i) = Some b \<and> a < b) \<longrightarrow>
        df' ! i = df ! i) \<and>
    (\<forall>i<length df. max_temp (df ! i) = None \<or> min_temp (df ! i) = None \<longrightarrow>
        df' ! i = df ! i) \<and>
    (\<forall>i<length df. \<forall>a b.
        max_temp (df' ! i) = Some a \<and> min_temp (df' ! i) = Some b \<longrightarrow> b \<le> a) \<and>
    led' ! 2 ! 1 = real (length (filter
        (\<lambda>r. \<exists>a b. max_temp r = Some a \<and> min_temp r = Some b \<and> a < b) df)) \<and>
    led' ! 2 ! 2 = led' ! 2 ! 1"
proof -
  let ?n = "real (swap_count df)"
  let ?L = "led[2 := (led ! 2)[1 := ?n, 2 := ?n]]"
  have r: "Check03_TmaxTminSwapped df led = Inr (map swap_row df, ?L)"
    by (rule Check03_rows[OF assms])
  have l: "length (map swap_row df) = length df" by simp
  have p1: "\<forall>i<length df. \<forall>a b.
        max_temp (df ! i) = Some a \<and> min_temp (df ! i) = Some b \<and> a < b \<longrightarrow>
        map swap_row df ! i = (df ! i)\<lparr>max_temp := Some b, min_temp := Some a\<rparr>"
    by (simp add: swap_row_swapped)
  have p2: "\<forall>i<length df.
        \<not> (\<exists>a b. max_temp (df ! i) = Some a \<and> min_temp (df ! i) = Some b \<and> a < b) \<longrightarrow>
        map swap_row df ! i = df ! i"
    using swap_row_same by (simp add: swapped_iff)
  have p3: "\<forall>i<length df. max_temp (df ! i) = None \<or> min_temp (df ! i) = None \<longrightarrow>
        map swap_row df ! i = df ! i"
    using p2 by auto
  have p4: "\<forall>i<length df. \<forall>a b.
        max_temp (map swap_row df ! i) = Some a \<and> min_temp (map swap_row df ! i) = Some b \<longrightarrow>
        b \<le> a"
    by (auto intro: swap_row_ordered)
  have n: "swap_count df = length (filter
        (\<lambda>r. \<exists>a b. max_temp r = Some a \<and> min_temp r = Some b \<and> a < b) df)"
    unfolding swap_count_def by (rule arg_cong[where f = length], rule filter_cong) (simp_all add: swapped_iff)
  have c1: "?L ! 2 ! 1 = real (length (filter
        (\<lambda>r. \<exists>a b. max_temp r = Some a \<and> min_temp r = Some b \<and> a < b) df))"
    using ledger_two_cells(1)[OF assms, of 2 ?n ?n] n by simp
  have c2: "?L ! 2 ! 2 = ?L ! 2 ! 1"
    using ledger_two_cells[OF assms, of 2 ?n ?n] by simp
  show ?thesis
    by (rule exI[of _ "map swap_row df"], rule exI[of _ ?L])
       (rule conjI[OF r conjI[OF l conjI[OF p1 conjI[OF p2 conjI[OF p3 conjI[OF p4
          conjI[OF c1 c2]]]]]]])
qed

text \<open>
  The claim on four rows: 10 / 20 is swapped into 20 / 10, while 20 / 10, a row without
  maximum and the tie 7 / 7 stay; one record is counted, in both columns.
\<close>

theorem Check03_swap_correction_witness:
  "ledger_shape new_ledger \<and>
   (\<exists>df' led'. Check03_TmaxTminSwapped swap_example new_ledger = Inr (df', led') \<and>
      map (\<lambda>i. max_temp (df' ! i)) [0, 1, 2, 3] = [Some 20, Some 20, None, Some 7] \<and>
      map (\<lambda>i. min_temp (df' ! i)) [0, 1, 2, 3] = [Some 10, Some 10, Some 5, Some 7] \<and>
      led' ! 2 ! 1 = 1 \<and> led' ! 2 ! 2 = 1)"
proof -
  from Check03_swap_correction[OF ledger_shape_new, of swap_example]
  obtain df' led' where
    run: "Check03_TmaxTminSwapped swap_example new_ledger = Inr (df', led')"
    and sw: "\<forall>i<length swap_example. \<forall>a b.
        max_temp (swap_example ! i) = Some a \<and> min_temp (swap_example ! i) = Some b \<and> a < b \<longrightarrow>
        df' ! i = (swap_example ! i)\<lparr>max_temp := Some b, min_temp := Some a\<rparr>"
    and same: "\<forall>i<length swap_example.
        \<not> (\<exists>a b. max_temp (swap_example ! i) = Some a \<and>
                 min_temp (swap_example ! i) = Some b \<and> a < b) \<longrightarrow>
        df' ! i = swap_example ! i"
    and c1: "led' ! 2 ! 1 = real (length (filter
        (\<lambda>r. \<exists>a b. max_temp r = Some a \<and> min_temp r = Some b \<and> a < b) swap_example))"
    and c2: "led' ! 2 ! 2 = led' ! 2 ! 1"
    by blast
  have r0: "df' ! 0 = (swap_example ! 0)\<lparr>max_temp := Some 20, min_temp := Some 10\<rparr>"
    using sw[rule_format, of 0 10 20] by (simp add: swap_example_def)
  have r1: "df' ! 1 = swap_example ! 1"
    using same[rule_format, of 1] by (simp add: swap_example_def)
  have r2: "df' ! 2 = swap_example ! 2"
    using same[rule_format, of 2] by (simp add: swap_example_def)
  have r3: "df' ! 3 = swap_example ! 3"
    using same[rule_format, of 3] by (simp add: swap_example_def)
  have m0: "max_temp (df' ! 0) = Some 20" "min_temp (df' ! 0) = Some 10"
    unfolding r0 by (simp_all add: swap_example_def)
  have m1: "max_temp (df' ! 1) = Some 20" "min_temp (df' ! 1) = Some 10"
    unfolding r1 by (simp_all add: swap_example_def)
  have m2: "max_temp (df' ! 2) = None" "min_temp (df' ! 2) = Some 5"
    unfolding r2 by (simp_all add: swap_example_def)
  have m3: "max_temp (df' ! 3) = Some 7" "min_temp (df' ! 3) = Some 7"
    unfolding r3 by (simp_all add: swap_example_def)
  have a: "map (\<lambda>i. max_temp (df' ! i)) [0, 1, 2, 3] = [Some 20, Some 20, None, Some 7]"
    by (simp only: list.map m0 m1 m2 m3)
  have b: "map (\<lambda>i. min_temp (df' ! i)) [0, 1, 2, 3] = [Some 10, Some 10, Some 5, Some 7]"
    by (simp only: list.map m0 m1 m2 m3)
  have n: "led' ! 2 ! 1 = 1"
    unfolding c1 by (simp add: swap_example_def)
  have m: "led' ! 2 ! 2 = 1" using c2 n by simp
  have "\<exists>df' led'. Check03_TmaxTminSwapped swap_example new_ledger = Inr (df', led') \<and>
      map (\<lambda>i. max_temp (df' ! i)) [0, 1, 2, 3] = [Some 20, Some 20, None, Some 7] \<and>
      map (\<lambda>i. min_temp (df' ! i)) [0, 1, 2, 3] = [Some 10, Some 10, Some 5, Some 7] \<and>
      led' ! 2 ! 1 = 1 \<and> led' ! 2 ! 2 = 1"
    by (rule exI[of _ df'], rule exI[of _ led'])
       (rule conjI[OF run conjI[OF a conjI[OF b conjI[OF n m]]]])
  with ledger_shape_new show ?thesis by (rule conjI)
qed

section \<open>Check 4: the temperature spread\<close>

lemma spread_fails_iff:
  "spread_fails r =
     (\<exists>a b. max_temp r = Some a \<and> min_temp r = Some b \<and> 25 < float64_sub a b)"
  by (simp add: spread_fails_def lt_cell_def sub_cell_def split: option.splits)

lemma spread_fails_exact:
  "spread_fails r =
     (\<exists>a b. max_temp r = Some a \<and> min_temp r = Some b \<and> 25 + 1 / 2 ^ 49 < a - b)"
  by (simp only: spread_fails_iff float64_sub_gt_25)

lemma range_row_fails:
  "max_temp r = Some a \<Longrightarrow> min_temp r = Some b \<Longrightarrow> 25 < float64_sub a b \<Longrightarrow>
   range_row r = r\<lparr>max_temp := None, min_temp := None\<rparr>"
  by (simp add: range_row_def spread_fails_iff)

lemma range_row_same: "\<not> spread_fails r \<Longrightarrow> range_row r = r"
  by (simp add: range_row_def)

text \<open>
  Claim C5, as stated: every record with both temperatures present and a spread above 25
  has both replaced. On the row with maximum 35.0 and minimum 9.999999999999998 both are
  present and the spread, \<open>25 + 1 / 2 ^ 49\<close>, is above 25, but the float difference is 25,
  so \<open>Check04_TmaxTminRange\<close> returns the row as it is and counts nothing.
\<close>

theorem Check04_keeps_exact_spread_above_25:
  "max_temp tie_row = Some 35 \<and> min_temp tie_row = Some (10 - 1 / 2 ^ 49) \<and>
   (25 :: real) < 35 - (10 - 1 / 2 ^ 49) \<and>
   float64_sub 35 (10 - 1 / 2 ^ 49) = 25 \<and>
   Check04_TmaxTminRange [tie_row] new_ledger = Inr ([tie_row], new_ledger)"
proof -
  have a: "max_temp tie_row = Some 35" "min_temp tie_row = Some (10 - 1 / 2 ^ 49)"
    by (simp_all add: tie_row_def)
  have b: "(25 :: real) < 35 - (10 - 1 / 2 ^ 49)"
    by simp
  have f: "\<not> spread_fails tie_row"
    by (simp add: spread_fails_exact tie_row_def)
  have d: "map range_row [tie_row] = [tie_row]"
    using f by (simp add: range_row_same)
  have n: "range_count [tie_row] = 0"
    using f by (simp add: range_count_def)
  have l: "new_ledger[3 := (new_ledger ! 3)[1 := real 0, 2 := real 0]] = new_ledger"
    by (simp add: new_ledger_rows)
  have c: "Check04_TmaxTminRange [tie_row] new_ledger = Inr ([tie_row], new_ledger)"
    by (simp only: Check04_rows[OF ledger_shape_new] d n l)
  show ?thesis
    by (rule conjI[OF a(1) conjI[OF a(2) conjI[OF b conjI[OF float64_sub_tie c]]]])
qed

text \<open>
  Claim C5, amended: the spread is the float difference. On a ledger of the 4 x 4 shape,
  \<open>Check04_TmaxTminRange\<close> returns normally. A row whose two temperatures are present and
  whose float difference \<open>float64_sub\<close> is above 25, which is the case exactly when the
  exact difference is above \<open>25 + 1 / 2 ^ 49\<close>, has both replaced with missing. Every
  other row is returned as it was and is not counted: a row with a missing temperature, a
  row whose float difference is at most 25, and so every row whose exact spread is at
  most 25. The number of replaced rows is written to the \<open>Max Temp\<close> and to the
  \<open>Min Temp\<close> column of row \<open>Range Fail\<close>.
\<close>

theorem Check04_range_spread:
  assumes "ledger_shape led"
  shows "\<exists>df' led'. Check04_TmaxTminRange df led = Inr (df', led') \<and>
    length df' = length df \<and>
    (\<forall>i<length df. \<forall>a b.
        max_temp (df ! i) = Some a \<and> min_temp (df ! i) = Some b \<and>
        (25 < float64_sub a b \<or> 25 + 1 / 2 ^ 49 < a - b) \<longrightarrow>
        df' ! i = (df ! i)\<lparr>max_temp := None, min_temp := None\<rparr>) \<and>
    (\<forall>i<length df. max_temp (df ! i) = None \<or> min_temp (df ! i) = None \<longrightarrow>
        df' ! i = df ! i) \<and>
    (\<forall>i<length df. \<forall>a b.
        max_temp (df ! i) = Some a \<and> min_temp (df ! i) = Some b \<and>
        (float64_sub a b \<le> 25 \<or> a - b \<le> 25) \<longrightarrow>
        df' ! i = df ! i) \<and>
    led' ! 3 ! 1 = real (length (filter
        (\<lambda>r. \<exists>a b. max_temp r = Some a \<and> min_temp r = Some b \<and> 25 < float64_sub a b)
        df)) \<and>
    led' ! 3 ! 2 = led' ! 3 ! 1"
proof -
  let ?n = "real (range_count df)"
  let ?L = "led[3 := (led ! 3)[1 := ?n, 2 := ?n]]"
  have r: "Check04_TmaxTminRange df led = Inr (map range_row df, ?L)"
    by (rule Check04_rows[OF assms])
  have l: "length (map range_row df) = length df" by simp
  have fails: "range_row r = r\<lparr>max_temp := None, min_temp := None\<rparr>"
    if "max_temp r = Some a" "min_temp r = Some b"
      "25 < float64_sub a b \<or> 25 + 1 / 2 ^ 49 < a - b" for r a b
    using that by (auto simp: float64_sub_gt_25 intro: range_row_fails)
  have keeps: "range_row r = r"
    if "max_temp r = Some a" "min_temp r = Some b"
      "float64_sub a b \<le> 25 \<or> a - b \<le> 25" for r a b
  proof -
    have "\<not> 25 < float64_sub a b"
    proof (cases "float64_sub a b \<le> 25")
      case True
      then show ?thesis by simp
    next
      case False
      with that(3) have "a - b \<le> 25" by simp
      then have "\<not> 25 + 1 / 2 ^ 49 < a - b" by (simp add: add_increasing2 not_less)
      then show ?thesis by (simp add: float64_sub_gt_25)
    qed
    then have "\<not> spread_fails r" using that(1,2) by (simp add: spread_fails_iff)
    then show ?thesis by (rule range_row_same)
  qed
  have p1: "\<forall>i<length df. \<forall>a b.
        max_temp (df ! i) = Some a \<and> min_temp (df ! i) = Some b \<and>
        (25 < float64_sub a b \<or> 25 + 1 / 2 ^ 49 < a - b) \<longrightarrow>
        map range_row df ! i = (df ! i)\<lparr>max_temp := None, min_temp := None\<rparr>"
    using fails by simp
  have p2: "\<forall>i<length df. max_temp (df ! i) = None \<or> min_temp (df ! i) = None \<longrightarrow>
        map range_row df ! i = df ! i"
    by (auto simp: range_row_same spread_fails_iff)
  have p3: "\<forall>i<length df. \<forall>a b.
        max_temp (df ! i) = Some a \<and> min_temp (df ! i) = Some b \<and>
        (float64_sub a b \<le> 25 \<or> a - b \<le> 25) \<longrightarrow>
        map range_row df ! i = df ! i"
    using keeps by simp
  have n: "range_count df = length (filter
        (\<lambda>r. \<exists>a b. max_temp r = Some a \<and> min_temp r = Some b \<and> 25 < float64_sub a b) df)"
    unfolding range_count_def
    by (rule arg_cong[where f = length], rule filter_cong) (simp_all add: spread_fails_iff)
  have c1: "?L ! 3 ! 1 = real (length (filter
        (\<lambda>r. \<exists>a b. max_temp r = Some a \<and> min_temp r = Some b \<and> 25 < float64_sub a b) df))"
    using ledger_two_cells(1)[OF assms, of 3 ?n ?n] n by simp
  have c2: "?L ! 3 ! 2 = ?L ! 3 ! 1"
    using ledger_two_cells[OF assms, of 3 ?n ?n] by simp
  show ?thesis
    by (rule exI[of _ "map range_row df"], rule exI[of _ ?L])
       (rule conjI[OF r conjI[OF l conjI[OF p1 conjI[OF p2 conjI[OF p3 conjI[OF c1 c2]]]]]])
qed

text \<open>
  The amended claim on five rows: 30 / 0 loses both temperatures; 25 / 0 (a spread of
  exactly 25), the two rows with one temperature missing and the row 35.0 /
  9.999999999999998 (float difference 25) stay; one record is counted, in both columns.
\<close>

theorem Check04_range_spread_witness:
  "ledger_shape new_ledger \<and>
   (\<exists>df' led'. Check04_TmaxTminRange range_example new_ledger = Inr (df', led') \<and>
      map (\<lambda>i. max_temp (df' ! i)) [0, 1, 2, 3, 4] =
        [None, Some 25, None, Some 30, Some 35] \<and>
      map (\<lambda>i. min_temp (df' ! i)) [0, 1, 2, 3, 4] =
        [None, Some 0, Some (- 20), None, Some (10 - 1 / 2 ^ 49)] \<and>
      led' ! 3 ! 1 = 1 \<and> led' ! 3 ! 2 = 1)"
proof -
  from Check04_range_spread[OF ledger_shape_new, of range_example]
  obtain df' led' where
    run: "Check04_TmaxTminRange range_example new_ledger = Inr (df', led')"
    and fails: "\<forall>i<length range_example. \<forall>a b.
        max_temp (range_example ! i) = Some a \<and> min_temp (range_example ! i) = Some b \<and>
        (25 < float64_sub a b \<or> 25 + 1 / 2 ^ 49 < a - b) \<longrightarrow>
        df' ! i = (range_example ! i)\<lparr>max_temp := None, min_temp := None\<rparr>"
    and miss: "\<forall>i<length range_example.
        max_temp (range_example ! i) = None \<or> min_temp (range_example ! i) = None \<longrightarrow>
        df' ! i = range_example ! i"
    and small: "\<forall>i<length range_example. \<forall>a b.
        max_temp (range_example ! i) = Some a \<and> min_temp (range_example ! i) = Some b \<and>
        (float64_sub a b \<le> 25 \<or> a - b \<le> 25) \<longrightarrow> df' ! i = range_example ! i"
    and c1: "led' ! 3 ! 1 = real (length (filter
        (\<lambda>r. \<exists>a b. max_temp r = Some a \<and> min_temp r = Some b \<and> 25 < float64_sub a b)
        range_example))"
    and c2: "led' ! 3 ! 2 = led' ! 3 ! 1"
    by blast
  have r0: "df' ! 0 = (range_example ! 0)\<lparr>max_temp := None, min_temp := None\<rparr>"
    using fails[rule_format, of 0 30 0] by (simp add: range_example_def)
  have r1: "df' ! 1 = range_example ! 1"
    using small[rule_format, of 1 25 0] by (simp add: range_example_def)
  have r2: "df' ! 2 = range_example ! 2"
    using miss[rule_format, of 2] by (simp add: range_example_def)
  have r3: "df' ! 3 = range_example ! 3"
    using miss[rule_format, of 3] by (simp add: range_example_def)
  have r4: "df' ! 4 = range_example ! 4"
    using small[rule_format, of 4 35 "10 - 1 / 2 ^ 49"] float64_sub_tie
    by (simp add: range_example_def tie_row_def)
  have m0: "max_temp (df' ! 0) = None" "min_temp (df' ! 0) = None"
    unfolding r0 by (simp_all add: range_example_def)
  have m1: "max_temp (df' ! 1) = Some 25" "min_temp (df' ! 1) = Some 0"
    unfolding r1 by (simp_all add: range_example_def)
  have m2: "max_temp (df' ! 2) = None" "min_temp (df' ! 2) = Some (- 20)"
    unfolding r2 by (simp_all add: range_example_def)
  have m3: "max_temp (df' ! 3) = Some 30" "min_temp (df' ! 3) = None"
    unfolding r3 by (simp_all add: range_example_def)
  have m4: "max_temp (df' ! 4) = Some 35" "min_temp (df' ! 4) = Some (10 - 1 / 2 ^ 49)"
    unfolding r4 by (simp_all add: range_example_def tie_row_def)
  have a: "map (\<lambda>i. max_temp (df' ! i)) [0, 1, 2, 3, 4] =
        [None, Some 25, None, Some 30, Some 35]"
    by (simp only: list.map m0 m1 m2 m3 m4)
  have b: "map (\<lambda>i. min_temp (df' ! i)) [0, 1, 2, 3, 4] =
        [None, Some 0, Some (- 20), None, Some (10 - 1 / 2 ^ 49)]"
    by (simp only: list.map m0 m1 m2 m3 m4)
  have n: "led' ! 3 ! 1 = 1"
    unfolding c1 by (simp add: range_example_def tie_row_def float64_sub_gt_25)
  have m: "led' ! 3 ! 2 = 1" using c2 n by simp
  have "\<exists>df' led'. Check04_TmaxTminRange range_example new_ledger = Inr (df', led') \<and>
      map (\<lambda>i. max_temp (df' ! i)) [0, 1, 2, 3, 4] =
        [None, Some 25, None, Some 30, Some 35] \<and>
      map (\<lambda>i. min_temp (df' ! i)) [0, 1, 2, 3, 4] =
        [None, Some 0, Some (- 20), None, Some (10 - 1 / 2 ^ 49)] \<and>
      led' ! 3 ! 1 = 1 \<and> led' ! 3 ! 2 = 1"
    by (rule exI[of _ df'], rule exI[of _ led'])
       (rule conjI[OF run conjI[OF a conjI[OF b conjI[OF n m]]]])
  with ledger_shape_new show ?thesis by (rule conjI)
qed

section \<open>The checks in sequence\<close>

lemma ledger_shape_row_update:
  "ledger_shape led \<Longrightarrow> length row = 4 \<Longrightarrow> ledger_shape (led[r := row])"
  by (cases "r < length led") (auto simp: ledger_shape_def list_all_length nth_list_update)

lemma ledger_other_rows:
  "r \<noteq> k \<Longrightarrow> led[k := row] ! r = led ! r"
  by simp

lemma Check02_ok:
  assumes "ledger_shape led"
  shows "\<exists>led'. Check02_GrossErrors df led = Inr (map gross_rows df, led') \<and>
     ledger_shape led' \<and>
     led' ! 0 = led ! 0 \<and> led' ! 2 = led ! 2 \<and> led' ! 3 = led ! 3 \<and>
     led' ! 1 = map (\<lambda>v. real (length (filter (\<lambda>r. gross_error v (value_of v r)) df))) colNames"
proof -
  let ?row = "(led ! 1)[0 := real (gross_count Precip 0 25 df),
                             1 := real (gross_count MaxTemp (- 25) 35 df),
                             2 := real (gross_count MinTemp (- 25) 35 df),
                             3 := real (gross_count WindSpeed 0 10 df)]"
  have len: "length ?row = 4" using assms by (simp add: ledger_row_length)
  have r: "Check02_GrossErrors df led = Inr (map gross_rows df, led[1 := ?row])"
    unfolding gross_rows_def by (rule Check02_rows[OF assms])
  have s: "ledger_shape (led[1 := ?row])"
    using assms len by (rule ledger_shape_row_update)
  have o: "led[1 := ?row] ! 0 = led ! 0" "led[1 := ?row] ! 2 = led ! 2"
    "led[1 := ?row] ! 3 = led ! 3"
    by simp_all
  have c: "led[1 := ?row] ! 1 =
      map (\<lambda>v. real (length (filter (\<lambda>r. gross_error v (value_of v r)) df))) colNames"
    by (rule Check02_ledger_row[OF assms])
  show ?thesis
    by (rule exI[of _ "led[1 := ?row]"])
       (rule conjI[OF r conjI[OF s conjI[OF o(1) conjI[OF o(2) conjI[OF o(3) c]]]]])
qed

lemma Check03_ok:
  assumes "ledger_shape led"
  shows "\<exists>led'. Check03_TmaxTminSwapped df led = Inr (map swap_row df, led') \<and>
     ledger_shape led' \<and>
     led' ! 0 = led ! 0 \<and> led' ! 1 = led ! 1 \<and> led' ! 3 = led ! 3 \<and>
     led' ! 2 = [led ! 2 ! 0, real (swap_count df), real (swap_count df), led ! 2 ! 3]"
proof -
  let ?row = "(led ! 2)[1 := real (swap_count df), 2 := real (swap_count df)]"
  have l4: "length (led ! 2) = 4" using assms by (simp add: ledger_row_length)
  have len: "length ?row = 4" using l4 by simp
  have r: "Check03_TmaxTminSwapped df led = Inr (map swap_row df, led[2 := ?row])"
    by (rule Check03_rows[OF assms])
  have s: "ledger_shape (led[2 := ?row])"
    using assms len by (rule ledger_shape_row_update)
  have o: "led[2 := ?row] ! 0 = led ! 0" "led[2 := ?row] ! 1 = led ! 1"
    "led[2 := ?row] ! 3 = led ! 3"
    by simp_all
  have "?row = [led ! 2 ! 0, real (swap_count df), real (swap_count df), led ! 2 ! 3]"
    using l4 by (auto simp: length_Suc_conv eval_nat_numeral)
  moreover have "led[2 := ?row] ! 2 = ?row"
    using assms by (simp add: ledger_shape_def)
  ultimately have c: "led[2 := ?row] ! 2 =
      [led ! 2 ! 0, real (swap_count df), real (swap_count df), led ! 2 ! 3]"
    by simp
  show ?thesis
    by (rule exI[of _ "led[2 := ?row]"])
       (rule conjI[OF r conjI[OF s conjI[OF o(1) conjI[OF o(2) conjI[OF o(3) c]]]]])
qed

lemma Check04_ok:
  assumes "ledger_shape led"
  shows "\<exists>led'. Check04_TmaxTminRange df led = Inr (map range_row df, led') \<and>
     ledger_shape led' \<and>
     led' ! 0 = led ! 0 \<and> led' ! 1 = led ! 1 \<and> led' ! 2 = led ! 2 \<and>
     led' ! 3 = [led ! 3 ! 0, real (range_count df), real (range_count df), led ! 3 ! 3]"
proof -
  let ?row = "(led ! 3)[1 := real (range_count df), 2 := real (range_count df)]"
  have l4: "length (led ! 3) = 4" using assms by (simp add: ledger_row_length)
  have len: "length ?row = 4" using l4 by simp
  have r: "Check04_TmaxTminRange df led = Inr (map range_row df, led[3 := ?row])"
    by (rule Check04_rows[OF assms])
  have s: "ledger_shape (led[3 := ?row])"
    using assms len by (rule ledger_shape_row_update)
  have o: "led[3 := ?row] ! 0 = led ! 0" "led[3 := ?row] ! 1 = led ! 1"
    "led[3 := ?row] ! 2 = led ! 2"
    by simp_all
  have "?row = [led ! 3 ! 0, real (range_count df), real (range_count df), led ! 3 ! 3]"
    using l4 by (auto simp: length_Suc_conv eval_nat_numeral)
  moreover have "led[3 := ?row] ! 3 = ?row"
    using assms by (simp add: ledger_shape_def)
  ultimately have c: "led[3 := ?row] ! 3 =
      [led ! 3 ! 0, real (range_count df), real (range_count df), led ! 3 ! 3]"
    by simp
  show ?thesis
    by (rule exI[of _ "led[3 := ?row]"])
       (rule conjI[OF r conjI[OF s conjI[OF o(1) conjI[OF o(2) conjI[OF o(3) c]]]]])
qed

lemma run_checks_steps:
  assumes "Check01_RemoveNoDataValues df led = Inr (df1, led1)"
    "Check02_GrossErrors df1 led1 = Inr (df2, led2)"
    "Check03_TmaxTminSwapped df2 led2 = Inr (df3, led3)"
    "Check04_TmaxTminRange df3 led3 = Inr (df4, led4)"
  shows "run_checks df led = Inr (df4, led4)"
  using assms by (simp add: run_checks_def and_then_def)

lemma value_of_gross_rows_all:
  "value_of w (gross_rows r) = (if gross_error w (value_of w r) then None else value_of w r)"
  unfolding gross_rows_def by (rule value_of_gross_rows)

lemma value_of_swap_row_None: "value_of v r = None \<Longrightarrow> value_of v (swap_row r) = None"
  by (cases v) (auto simp: swap_row_def swapped_iff)

lemma value_of_range_row_None: "value_of v r = None \<Longrightarrow> value_of v (range_row r) = None"
  by (cases v) (auto simp: range_row_def)

lemma isna_sum_filter: "isna_sum v df = length (filter (\<lambda>r. value_of v r = None) df)"
  by (simp add: isna_sum_def column_def mask_sum_def filter_map comp_def)

lemma length_filter_map_mono:
  "(\<And>x. p x \<Longrightarrow> q (f x)) \<Longrightarrow> length (filter p xs) \<le> length (filter q (map f xs))"
  by (induction xs) auto

lemma isna_sum_map_mono:
  "(\<And>r. value_of v r = None \<Longrightarrow> value_of v (f r) = None) \<Longrightarrow>
   isna_sum v df \<le> isna_sum v (map f df)"
  unfolding isna_sum_filter by (rule length_filter_map_mono)

section \<open>Check 1 applied twice\<close>

lemma sentinel_row_clean: "\<not> eq_cell (value_of v (sentinel_row k r)) k"
  by (simp add: value_of_sentinel_row eq_cell_def)

lemma sentinel_row_fixed:
  "(\<And>v. \<not> eq_cell (value_of v r) k) \<Longrightarrow> sentinel_row k r = r"
proof -
  assume a: "\<And>v. \<not> eq_cell (value_of v r) k"
  have "\<not> eq_cell (value_of Precip r) k" "\<not> eq_cell (value_of MaxTemp r) k"
    "\<not> eq_cell (value_of MinTemp r) k" "\<not> eq_cell (value_of WindSpeed r) k"
    by (rule a)+
  then show ?thesis by (simp add: sentinel_row_def colNames_def)
qed

lemma sentinel_row_idem: "sentinel_row k (sentinel_row k r) = sentinel_row k r"
  by (rule sentinel_row_fixed) (rule sentinel_row_clean)

lemma eq_frame_column:
  "map (\<lambda>m. m v) (eq_frame df k) = map (\<lambda>r. eq_cell (value_of v r) k) df"
  by (simp add: eq_frame_def)

text \<open>
  Claim C6. Applying \<open>Check01_RemoveNoDataValues\<close> to its own result returns the same
  frame (and the same ledger), and the mask \<open>DataDF == -999\<close> of the second application
  has no true entry in any column, so nothing is replaced. Started on the ledger of the
  loader, the row \<open>No Data\<close> after the second application holds only zeros.
\<close>

theorem Check01_idempotent:
  "(\<exists>df1. Check01_RemoveNoDataValues df led = Inr (df1, led) \<and>
          Check01_RemoveNoDataValues df1 led = Inr (df1, led) \<and>
          (\<forall>v. mask_sum (map (\<lambda>m. m v) (eq_frame df1 (- 999))) = 0) \<and>
          cell_changes df1 df1 = 0) \<and>
   (\<exists>df1 led1 df2 led2. Check01_RemoveNoDataValues df new_ledger = Inr (df1, led1) \<and>
          Check01_RemoveNoDataValues df1 led1 = Inr (df2, led2) \<and> df2 = df1 \<and>
          led2 ! 0 = [0, 0, 0, 0])"
proof -
  let ?d = "map (sentinel_row (- 999)) df"
  have again: "map (sentinel_row (- 999)) ?d = ?d"
    by (simp add: sentinel_row_idem)
  have one: "Check01_RemoveNoDataValues df l = Inr (?d, l)" for l
    by (rule Check01_rows)
  have two: "Check01_RemoveNoDataValues ?d l = Inr (?d, l)" for l
    using Check01_rows[of ?d l] by (simp only: again)
  have none: "\<forall>v. mask_sum (map (\<lambda>m. m v) (eq_frame ?d (- 999))) = 0"
    by (simp add: eq_frame_column mask_sum_map sentinel_row_clean del: map_map)
  have same: "cell_changes ?d ?d = 0"
    by (simp add: cell_changes_def zip_same_conv_map comp_def)
  have zero: "new_ledger ! 0 = [0, 0, 0, 0]"
    by (simp add: new_ledger_rows)
  have a: "\<exists>df1. Check01_RemoveNoDataValues df led = Inr (df1, led) \<and>
          Check01_RemoveNoDataValues df1 led = Inr (df1, led) \<and>
          (\<forall>v. mask_sum (map (\<lambda>m. m v) (eq_frame df1 (- 999))) = 0) \<and>
          cell_changes df1 df1 = 0"
    by (rule exI[of _ ?d]) (rule conjI[OF one conjI[OF two conjI[OF none same]]])
  have b: "\<exists>df1 led1 df2 led2. Check01_RemoveNoDataValues df new_ledger = Inr (df1, led1) \<and>
          Check01_RemoveNoDataValues df1 led1 = Inr (df2, led2) \<and> df2 = df1 \<and>
          led2 ! 0 = [0, 0, 0, 0]"
    by (rule exI[of _ ?d], rule exI[of _ new_ledger], rule exI[of _ ?d],
        rule exI[of _ new_ledger])
       (rule conjI[OF one conjI[OF two conjI[OF refl zero]]])
  from a b show ?thesis by (rule conjI)
qed

section \<open>Missing values through the four checks\<close>

text \<open>
  Claim C7. On a ledger of the 4 x 4 shape the four checks, run in the order of the
  driver, all return normally. For every variable the number of missing entries of its
  column does not decrease from one check to the next, and a cell that is missing before a
  check is missing after it.
\<close>

theorem missing_values_monotone:
  assumes "ledger_shape led"
  shows "\<exists>df1 led1 df2 led2 df3 led3 df4 led4.
     Check01_RemoveNoDataValues df led = Inr (df1, led1) \<and>
     Check02_GrossErrors df1 led1 = Inr (df2, led2) \<and>
     Check03_TmaxTminSwapped df2 led2 = Inr (df3, led3) \<and>
     Check04_TmaxTminRange df3 led3 = Inr (df4, led4) \<and>
     run_checks df led = Inr (df4, led4) \<and>
     (\<forall>v. isna_sum v df \<le> isna_sum v df1 \<and> isna_sum v df1 \<le> isna_sum v df2 \<and>
          isna_sum v df2 \<le> isna_sum v df3 \<and> isna_sum v df3 \<le> isna_sum v df4) \<and>
     (\<forall>v. \<forall>i<length df.
          (value_of v (df ! i) = None \<longrightarrow> value_of v (df1 ! i) = None) \<and>
          (value_of v (df1 ! i) = None \<longrightarrow> value_of v (df2 ! i) = None) \<and>
          (value_of v (df2 ! i) = None \<longrightarrow> value_of v (df3 ! i) = None) \<and>
          (value_of v (df3 ! i) = None \<longrightarrow> value_of v (df4 ! i) = None))"
proof -
  let ?d1 = "map (sentinel_row (- 999)) df"
  let ?d2 = "map gross_rows ?d1"
  let ?d3 = "map swap_row ?d2"
  let ?d4 = "map range_row ?d3"
  have k1: "value_of v r = None \<Longrightarrow> value_of v (sentinel_row (- 999) r) = None" for v r
    by (simp add: value_of_sentinel_row)
  have k2: "value_of v r = None \<Longrightarrow> value_of v (gross_rows r) = None" for v r
    by (simp add: value_of_gross_rows_all)
  note k3 = value_of_swap_row_None
  note k4 = value_of_range_row_None
  have c1: "Check01_RemoveNoDataValues df led = Inr (?d1, led)"
    by (rule Check01_rows)
  from Check02_ok[OF assms, of ?d1] obtain led2 where
    c2: "Check02_GrossErrors ?d1 led = Inr (?d2, led2)" and s2: "ledger_shape led2"
    by blast
  from Check03_ok[OF s2, of ?d2] obtain led3 where
    c3: "Check03_TmaxTminSwapped ?d2 led2 = Inr (?d3, led3)" and s3: "ledger_shape led3"
    by blast
  from Check04_ok[OF s3, of ?d3] obtain led4 where
    c4: "Check04_TmaxTminRange ?d3 led3 = Inr (?d4, led4)"
    by blast
  have run: "run_checks df led = Inr (?d4, led4)"
    by (rule run_checks_steps[OF c1 c2 c3 c4])
  have m1: "isna_sum v d \<le> isna_sum v (map (sentinel_row (- 999)) d)" for v d
    by (rule isna_sum_map_mono) (rule k1)
  have m2: "isna_sum v d \<le> isna_sum v (map gross_rows d)" for v d
    by (rule isna_sum_map_mono) (rule k2)
  have m3: "isna_sum v d \<le> isna_sum v (map swap_row d)" for v d
    by (rule isna_sum_map_mono) (rule k3)
  have m4: "isna_sum v d \<le> isna_sum v (map range_row d)" for v d
    by (rule isna_sum_map_mono) (rule k4)
  have cnt: "\<forall>v. isna_sum v df \<le> isna_sum v ?d1 \<and> isna_sum v ?d1 \<le> isna_sum v ?d2 \<and>
          isna_sum v ?d2 \<le> isna_sum v ?d3 \<and> isna_sum v ?d3 \<le> isna_sum v ?d4"
    using m1 m2 m3 m4 by blast
  have pt: "\<forall>v. \<forall>i<length df.
          (value_of v (df ! i) = None \<longrightarrow> value_of v (?d1 ! i) = None) \<and>
          (value_of v (?d1 ! i) = None \<longrightarrow> value_of v (?d2 ! i) = None) \<and>
          (value_of v (?d2 ! i) = None \<longrightarrow> value_of v (?d3 ! i) = None) \<and>
          (value_of v (?d3 ! i) = None \<longrightarrow> value_of v (?d4 ! i) = None)"
    using k1 k2 k3 k4 by (simp del: value_of.simps)
  show ?thesis
    by (rule exI[of _ ?d1], rule exI[of _ led], rule exI[of _ ?d2], rule exI[of _ led2],
        rule exI[of _ ?d3], rule exI[of _ led3], rule exI[of _ ?d4], rule exI[of _ led4])
       (rule conjI[OF c1 conjI[OF c2 conjI[OF c3 conjI[OF c4 conjI[OF run conjI[OF cnt pt]]]]]])
qed

text \<open>
  The claim on three rows: the wind speed missing in the second input row is missing in
  the final frame, and the column counts at least that one missing entry.
\<close>

theorem missing_values_monotone_witness:
  "ledger_shape new_ledger \<and>
   (\<exists>df4 led4. run_checks mixed_example new_ledger = Inr (df4, led4) \<and>
      wind_speed (mixed_example ! 1) = None \<and> wind_speed (df4 ! 1) = None \<and>
      isna_sum WindSpeed mixed_example = 1 \<and> 1 \<le> isna_sum WindSpeed df4)"
proof -
  from missing_values_monotone[OF ledger_shape_new, of mixed_example]
  obtain df1 df2 df3 df4 led4 where
    run: "run_checks mixed_example new_ledger = Inr (df4, led4)"
    and cnt: "\<forall>v. isna_sum v mixed_example \<le> isna_sum v df1 \<and>
          isna_sum v df1 \<le> isna_sum v df2 \<and>
          isna_sum v df2 \<le> isna_sum v df3 \<and> isna_sum v df3 \<le> isna_sum v df4"
    and pt: "\<forall>v. \<forall>i<length mixed_example.
          (value_of v (mixed_example ! i) = None \<longrightarrow> value_of v (df1 ! i) = None) \<and>
          (value_of v (df1 ! i) = None \<longrightarrow> value_of v (df2 ! i) = None) \<and>
          (value_of v (df2 ! i) = None \<longrightarrow> value_of v (df3 ! i) = None) \<and>
          (value_of v (df3 ! i) = None \<longrightarrow> value_of v (df4 ! i) = None)"
    by blast
  have w0: "wind_speed (mixed_example ! 1) = None"
    by (simp add: mixed_example_def)
  have len: "1 < length mixed_example"
    by (simp add: mixed_example_def)
  have w4: "wind_speed (df4 ! 1) = None"
    using pt[rule_format, of 1 WindSpeed] w0 len by simp
  have n0: "isna_sum WindSpeed mixed_example = 1"
    by (simp add: isna_sum_filter mixed_example_def example_row_def)
  have n4: "1 \<le> isna_sum WindSpeed df4"
    using cnt[rule_format, of WindSpeed] n0 by linarith
  have "\<exists>df4 led4. run_checks mixed_example new_ledger = Inr (df4, led4) \<and>
      wind_speed (mixed_example ! 1) = None \<and> wind_speed (df4 ! 1) = None \<and>
      isna_sum WindSpeed mixed_example = 1 \<and> 1 \<le> isna_sum WindSpeed df4"
    by (rule exI[of _ df4], rule exI[of _ led4])
       (rule conjI[OF run conjI[OF w0 conjI[OF w4 conjI[OF n0 n4]]]])
  with ledger_shape_new show ?thesis by (rule conjI)
qed

section \<open>A gross error ahead of the spread check\<close>

lemma mask_sum_split:
  assumes "i < length m" "\<not> m ! i"
  shows "mask_sum m = mask_sum (take i m) + mask_sum (drop (Suc i) m)"
proof -
  have "m = take i m @ m ! i # drop (Suc i) m"
    using assms(1) by (rule id_take_nth_drop)
  then have "mask_sum m = mask_sum (take i m @ m ! i # drop (Suc i) m)"
    by simp
  also have "\<dots> = mask_sum (take i m) + mask_sum (drop (Suc i) m)"
    using assms(2) by (simp add: mask_sum_def)
  finally show ?thesis .
qed

lemma range_count_mask: "range_count df = mask_sum (range_index df)"
  by (simp add: range_index_map mask_sum_map range_count_def)

text \<open>
  Claim C8. Let a row enter Check 2 with maximum temperature 40 and minimum temperature
  0. Check 2 replaces the maximum with missing and keeps the minimum; Check 3 leaves the
  row without a maximum; the mask of Check 4 is false at that row, and the count that
  Check 4 writes to both temperature columns of row \<open>Range Fail\<close> is the number of true
  mask entries of the other rows.
\<close>

theorem gross_error_before_range_check:
  assumes "ledger_shape led" "i < length df"
    "max_temp (df ! i) = Some 40" "min_temp (df ! i) = Some 0"
  shows "\<exists>df2 led2 df3 led3 df4 led4.
     Check02_GrossErrors df led = Inr (df2, led2) \<and>
     max_temp (df2 ! i) = None \<and> min_temp (df2 ! i) = Some 0 \<and>
     Check03_TmaxTminSwapped df2 led2 = Inr (df3, led3) \<and>
     max_temp (df3 ! i) = None \<and>
     \<not> range_index df3 ! i \<and>
     Check04_TmaxTminRange df3 led3 = Inr (df4, led4) \<and>
     led4 ! 3 ! 1 = real (mask_sum (take i (range_index df3)) +
                          mask_sum (drop (Suc i) (range_index df3))) \<and>
     led4 ! 3 ! 2 = led4 ! 3 ! 1"
proof -
  let ?d2 = "map gross_rows df"
  let ?d3 = "map swap_row ?d2"
  let ?d4 = "map range_row ?d3"
  from Check02_ok[OF assms(1), of df] obtain led2 where
    c2: "Check02_GrossErrors df led = Inr (?d2, led2)" and s2: "ledger_shape led2"
    by blast
  from Check03_ok[OF s2, of ?d2] obtain led3 where
    c3: "Check03_TmaxTminSwapped ?d2 led2 = Inr (?d3, led3)" and s3: "ledger_shape led3"
    by blast
  from Check04_ok[OF s3, of ?d3] obtain led4 where
    c4: "Check04_TmaxTminRange ?d3 led3 = Inr (?d4, led4)"
    and row: "led4 ! 3 = [led3 ! 3 ! 0, real (range_count ?d3), real (range_count ?d3),
                          led3 ! 3 ! 3]"
    by blast
  have g: "value_of v (?d2 ! i) =
      (if gross_error v (value_of v (df ! i)) then None else value_of v (df ! i))" for v
    using assms(2) by (simp only: nth_map value_of_gross_rows_all)
  have x2: "max_temp (?d2 ! i) = None"
    using g[of MaxTemp] assms(3) by (simp add: gross_error_def)
  have n2: "min_temp (?d2 ! i) = Some 0"
    using g[of MinTemp] assms(4) by (simp add: gross_error_def)
  have "\<not> swapped (?d2 ! i)"
    using x2 by (simp add: swapped_iff)
  then have "swap_row (?d2 ! i) = ?d2 ! i"
    by (rule swap_row_same)
  then have e3: "?d3 ! i = ?d2 ! i"
    using assms(2) by simp
  have x3: "max_temp (?d3 ! i) = None"
    using x2 by (simp only: e3)
  have "\<not> spread_fails (?d3 ! i)"
    using x3 by (simp add: spread_fails_iff)
  then have f: "\<not> range_index ?d3 ! i"
    using assms(2) by (simp add: range_index_map)
  have li: "i < length (range_index ?d3)"
    using assms(2) by (simp add: range_index_map)
  have n: "led4 ! 3 ! 1 = real (mask_sum (take i (range_index ?d3)) +
                          mask_sum (drop (Suc i) (range_index ?d3)))"
    using mask_sum_split[OF li f] by (simp add: row range_count_mask)
  have m: "led4 ! 3 ! 2 = led4 ! 3 ! 1"
    by (simp add: row)
  show ?thesis
    by (rule exI[of _ ?d2], rule exI[of _ led2], rule exI[of _ ?d3], rule exI[of _ led3],
        rule exI[of _ ?d4], rule exI[of _ led4])
       (rule conjI[OF c2 conjI[OF x2 conjI[OF n2 conjI[OF c3 conjI[OF x3 conjI[OF f
          conjI[OF c4 conjI[OF n m]]]]]]]])
qed

text \<open>
  The claim on the frame holding only such a row: the maximum is missing after Check 2
  and both \<open>Range Fail\<close> counts are 0.
\<close>

theorem gross_error_before_range_check_witness:
  "ledger_shape new_ledger \<and> 0 < length [hot_row] \<and>
   max_temp ([hot_row] ! 0) = Some 40 \<and> min_temp ([hot_row] ! 0) = Some 0 \<and>
   (\<exists>df2 led2 df3 led3 df4 led4.
     Check02_GrossErrors [hot_row] new_ledger = Inr (df2, led2) \<and>
     max_temp (df2 ! 0) = None \<and>
     Check03_TmaxTminSwapped df2 led2 = Inr (df3, led3) \<and>
     Check04_TmaxTminRange df3 led3 = Inr (df4, led4) \<and>
     led4 ! 3 ! 1 = 0 \<and> led4 ! 3 ! 2 = 0)"
proof -
  have h: "0 < length [hot_row]" "max_temp ([hot_row] ! 0) = Some 40"
    "min_temp ([hot_row] ! 0) = Some 0"
    by (simp_all add: hot_row_def)
  from gross_error_before_range_check[OF ledger_shape_new h]
  obtain df2 led2 df3 led3 df4 led4 where
    c2: "Check02_GrossErrors [hot_row] new_ledger = Inr (df2, led2)"
    and x2: "max_temp (df2 ! 0) = None"
    and c3: "Check03_TmaxTminSwapped df2 led2 = Inr (df3, led3)"
    and c4: "Check04_TmaxTminRange df3 led3 = Inr (df4, led4)"
    and n: "led4 ! 3 ! 1 = real (mask_sum (take 0 (range_index df3)) +
                          mask_sum (drop (Suc 0) (range_index df3)))"
    and m: "led4 ! 3 ! 2 = led4 ! 3 ! 1"
    by blast
  have d2: "df2 = map gross_rows [hot_row]"
    using c2 Check02_rows[OF ledger_shape_new, of "[hot_row]"]
    by (simp add: gross_rows_def)
  have s2: "ledger_shape led2"
    using c2 Check02_ok[OF ledger_shape_new, of "[hot_row]"] by auto
  have d3: "df3 = map swap_row df2"
    using c3 Check03_rows[OF s2, of df2] by simp
  have l3: "length (range_index df3) = 1"
    by (simp add: range_index_map d3 d2)
  have z: "led4 ! 3 ! 1 = 0"
    using l3 unfolding n by (simp add: mask_sum_def)
  have z': "led4 ! 3 ! 2 = 0"
    using m z by simp
  have "\<exists>df2 led2 df3 led3 df4 led4.
     Check02_GrossErrors [hot_row] new_ledger = Inr (df2, led2) \<and>
     max_temp (df2 ! 0) = None \<and>
     Check03_TmaxTminSwapped df2 led2 = Inr (df3, led3) \<and>
     Check04_TmaxTminRange df3 led3 = Inr (df4, led4) \<and>
     led4 ! 3 ! 1 = 0 \<and> led4 ! 3 ! 2 = 0"
    by (rule exI[of _ df2], rule exI[of _ led2], rule exI[of _ df3], rule exI[of _ led3],
        rule exI[of _ df4], rule exI[of _ led4])
       (rule conjI[OF c2 conjI[OF x2 conjI[OF c3 conjI[OF c4 conjI[OF z z']]]]])
  with ledger_shape_new h show ?thesis by blast
qed

section \<open>The ledger rows, check by check\<close>

lemma run_checks_mixed_example:
  "run_checks mixed_example new_ledger =
     Inr ([\<lparr>Date = (2020, 1, 1), precip = None, max_temp = Some 20, min_temp = Some 10,
             wind_speed = Some 5\<rparr>,
           \<lparr>Date = (2020, 1, 2), precip = None, max_temp = None, min_temp = Some 0,
             wind_speed = None\<rparr>,
           \<lparr>Date = (2020, 1, 3), precip = Some 2, max_temp = None, min_temp = None,
             wind_speed = Some 3\<rparr>],
          [[0, 0, 0, 0], [1, 1, 0, 0], [0, 1, 1, 0], [0, 1, 1, 0]])"
proof -
  let ?d1 = "map (sentinel_row (- 999)) mixed_example"
  let ?d2 = "map gross_rows ?d1"
  let ?d3 = "map swap_row ?d2"
  let ?d4 = "map range_row ?d3"
  have d1: "?d1 = [\<lparr>Date = (2020, 1, 1), precip = None, max_temp = Some 10,
             min_temp = Some 20, wind_speed = Some 5\<rparr>,
           \<lparr>Date = (2020, 1, 2), precip = Some 30, max_temp = Some 40, min_temp = Some 0,
             wind_speed = None\<rparr>,
           \<lparr>Date = (2020, 1, 3), precip = Some 2, max_temp = Some 30,
             min_temp = Some (- 10), wind_speed = Some 3\<rparr>]"
    by (simp add: mixed_example_def example_row_def sentinel_row_def colNames_def eq_cell_def)
  have d2: "?d2 = [\<lparr>Date = (2020, 1, 1), precip = None, max_temp = Some 10,
             min_temp = Some 20, wind_speed = Some 5\<rparr>,
           \<lparr>Date = (2020, 1, 2), precip = None, max_temp = None, min_temp = Some 0,
             wind_speed = None\<rparr>,
           \<lparr>Date = (2020, 1, 3), precip = Some 2, max_temp = Some 30,
             min_temp = Some (- 10), wind_speed = Some 3\<rparr>]"
    unfolding d1 by (simp add: gross_rows_def gross_row_def out_of_range_def lt_cell_def)
  have d3: "?d3 = [\<lparr>Date = (2020, 1, 1), precip = None, max_temp = Some 20,
             min_temp = Some 10, wind_speed = Some 5\<rparr>,
           \<lparr>Date = (2020, 1, 2), precip = None, max_temp = None, min_temp = Some 0,
             wind_speed = None\<rparr>,
           \<lparr>Date = (2020, 1, 3), precip = Some 2, max_temp = Some 30,
             min_temp = Some (- 10), wind_speed = Some 3\<rparr>]"
    unfolding d2 by (simp add: swap_row_def swapped_def lt_cell_def)
  have d4: "?d4 = [\<lparr>Date = (2020, 1, 1), precip = None, max_temp = Some 20,
             min_temp = Some 10, wind_speed = Some 5\<rparr>,
           \<lparr>Date = (2020, 1, 2), precip = None, max_temp = None, min_temp = Some 0,
             wind_speed = None\<rparr>,
           \<lparr>Date = (2020, 1, 3), precip = Some 2, max_temp = None, min_temp = None,
             wind_speed = Some 3\<rparr>]"
    unfolding d3 by (simp add: range_row_def spread_fails_exact)
  have g: "map (\<lambda>v. real (length (filter (\<lambda>r. gross_error v (value_of v r)) ?d1))) colNames =
      [1, 1, 0, 0]"
    unfolding d1 by (simp add: colNames_def gross_error_def)
  have s: "swap_count ?d2 = 1"
    unfolding d2 by (simp add: swap_count_def swapped_def lt_cell_def)
  have r: "range_count ?d3 = 1"
    unfolding d3 by (simp add: range_count_def spread_fails_exact)
  have c1: "Check01_RemoveNoDataValues mixed_example new_ledger = Inr (?d1, new_ledger)"
    by (rule Check01_rows)
  from Check02_ok[OF ledger_shape_new, of ?d1] obtain led2 where
    c2: "Check02_GrossErrors ?d1 new_ledger = Inr (?d2, led2)" and s2: "ledger_shape led2"
    and o2: "led2 ! 0 = new_ledger ! 0" "led2 ! 2 = new_ledger ! 2" "led2 ! 3 = new_ledger ! 3"
    and r2: "led2 ! 1 = map (\<lambda>v. real (length (filter (\<lambda>r. gross_error v (value_of v r)) ?d1)))
               colNames"
    by blast
  from Check03_ok[OF s2, of ?d2] obtain led3 where
    c3: "Check03_TmaxTminSwapped ?d2 led2 = Inr (?d3, led3)" and s3: "ledger_shape led3"
    and o3: "led3 ! 0 = led2 ! 0" "led3 ! 1 = led2 ! 1" "led3 ! 3 = led2 ! 3"
    and r3: "led3 ! 2 = [led2 ! 2 ! 0, real (swap_count ?d2), real (swap_count ?d2),
                         led2 ! 2 ! 3]"
    by blast
  from Check04_ok[OF s3, of ?d3] obtain led4 where
    c4: "Check04_TmaxTminRange ?d3 led3 = Inr (?d4, led4)" and s4: "ledger_shape led4"
    and o4: "led4 ! 0 = led3 ! 0" "led4 ! 1 = led3 ! 1" "led4 ! 2 = led3 ! 2"
    and r4: "led4 ! 3 = [led3 ! 3 ! 0, real (range_count ?d3), real (range_count ?d3),
                         led3 ! 3 ! 3]"
    by blast
  have rows: "led4 ! 0 = [0, 0, 0, 0]" "led4 ! 1 = [1, 1, 0, 0]" "led4 ! 2 = [0, 1, 1, 0]"
    "led4 ! 3 = [0, 1, 1, 0]"
    by (simp_all only: o4 o3 o2 r2 r3 r4 g s r) (simp_all add: new_ledger_rows)
  have "length led4 = 4" using s4 by (simp add: ledger_shape_def)
  then have "led4 = [led4 ! 0, led4 ! 1, led4 ! 2, led4 ! 3]"
    by (auto simp: length_Suc_conv eval_nat_numeral)
  then have l4: "led4 = [[0, 0, 0, 0], [1, 1, 0, 0], [0, 1, 1, 0], [0, 1, 1, 0]]"
    by (simp only: rows)
  show ?thesis
    using run_checks_steps[OF c1 c2 c3 c4] by (simp only: d4 l4)
qed

lemma ReadData_example_files:
  "ReadData Inr example_files p = Inr (mixed_example, new_ledger)"
  by (simp add: ReadData_def example_files_def)

text \<open>
  Claim C9. On a ledger of the 4 x 4 shape each check returns a ledger of that shape
  whose rows other than the check's own are the rows it received: Check 1 returns the
  ledger as it is, Check 2 keeps rows 0, 2 and 3, Check 3 keeps rows 0, 1 and 3, Check 4
  keeps rows 0, 1 and 2. The ledger of the loader holds only zeros. After the four checks
  on that ledger, row \<open>No Data\<close> still holds zeros, rows \<open>Gross Error\<close> and \<open>Swapped\<close> are the
  rows left by Check 2 and Check 3, and the cells of rows \<open>Swapped\<close> and \<open>Range Fail\<close>
  outside the two temperature columns are zero.
\<close>

theorem ledger_frame:
  assumes "ledger_shape led"
  shows "(\<exists>df'. Check01_RemoveNoDataValues df led = Inr (df', led)) \<and>
    (\<exists>df' led'. Check02_GrossErrors df led = Inr (df', led') \<and> ledger_shape led' \<and>
        led' ! 0 = led ! 0 \<and> led' ! 2 = led ! 2 \<and> led' ! 3 = led ! 3) \<and>
    (\<exists>df' led'. Check03_TmaxTminSwapped df led = Inr (df', led') \<and> ledger_shape led' \<and>
        led' ! 0 = led ! 0 \<and> led' ! 1 = led ! 1 \<and> led' ! 3 = led ! 3) \<and>
    (\<exists>df' led'. Check04_TmaxTminRange df led = Inr (df', led') \<and> ledger_shape led' \<and>
        led' ! 0 = led ! 0 \<and> led' ! 1 = led ! 1 \<and> led' ! 2 = led ! 2) \<and>
    (ReadData read_csv fs fileName = Inr (df0, led0) \<longrightarrow>
        led0 = [[0, 0, 0, 0], [0, 0, 0, 0], [0, 0, 0, 0], [0, 0, 0, 0]]) \<and>
    (\<exists>df1 led1 df2 led2 df3 led3 df4 led4.
        Check01_RemoveNoDataValues df new_ledger = Inr (df1, led1) \<and>
        Check02_GrossErrors df1 led1 = Inr (df2, led2) \<and>
        Check03_TmaxTminSwapped df2 led2 = Inr (df3, led3) \<and>
        Check04_TmaxTminRange df3 led3 = Inr (df4, led4) \<and>
        run_checks df new_ledger = Inr (df4, led4) \<and>
        led4 ! 0 = [0, 0, 0, 0] \<and> led4 ! 1 = led2 ! 1 \<and> led4 ! 2 = led3 ! 2 \<and>
        led4 ! 2 ! 0 = 0 \<and> led4 ! 2 ! 3 = 0 \<and> led4 ! 3 ! 0 = 0 \<and> led4 ! 3 ! 3 = 0)"
proof -
  have p1: "\<exists>df'. Check01_RemoveNoDataValues df led = Inr (df', led)"
    by (rule exI) (rule Check01_rows)
  have p2: "\<exists>df' led'. Check02_GrossErrors df led = Inr (df', led') \<and> ledger_shape led' \<and>
        led' ! 0 = led ! 0 \<and> led' ! 2 = led ! 2 \<and> led' ! 3 = led ! 3"
    using Check02_ok[OF assms, of df] by blast
  have p3: "\<exists>df' led'. Check03_TmaxTminSwapped df led = Inr (df', led') \<and> ledger_shape led' \<and>
        led' ! 0 = led ! 0 \<and> led' ! 1 = led ! 1 \<and> led' ! 3 = led ! 3"
    using Check03_ok[OF assms, of df] by blast
  have p4: "\<exists>df' led'. Check04_TmaxTminRange df led = Inr (df', led') \<and> ledger_shape led' \<and>
        led' ! 0 = led ! 0 \<and> led' ! 1 = led ! 1 \<and> led' ! 2 = led ! 2"
    using Check04_ok[OF assms, of df] by blast
  have p5: "ReadData read_csv fs fileName = Inr (df0, led0) \<longrightarrow>
        led0 = [[0, 0, 0, 0], [0, 0, 0, 0], [0, 0, 0, 0], [0, 0, 0, 0]]"
    by (auto simp: ReadData_def new_ledger_rows split: option.splits sum.splits)
  let ?d1 = "map (sentinel_row (- 999)) df"
  let ?d2 = "map gross_rows ?d1"
  let ?d3 = "map swap_row ?d2"
  let ?d4 = "map range_row ?d3"
  have c1: "Check01_RemoveNoDataValues df new_ledger = Inr (?d1, new_ledger)"
    by (rule Check01_rows)
  from Check02_ok[OF ledger_shape_new, of ?d1] obtain led2 where
    c2: "Check02_GrossErrors ?d1 new_ledger = Inr (?d2, led2)" and s2: "ledger_shape led2"
    and o2: "led2 ! 0 = new_ledger ! 0" "led2 ! 2 = new_ledger ! 2" "led2 ! 3 = new_ledger ! 3"
    by blast
  from Check03_ok[OF s2, of ?d2] obtain led3 where
    c3: "Check03_TmaxTminSwapped ?d2 led2 = Inr (?d3, led3)" and s3: "ledger_shape led3"
    and o3: "led3 ! 0 = led2 ! 0" "led3 ! 1 = led2 ! 1" "led3 ! 3 = led2 ! 3"
    and r3: "led3 ! 2 = [led2 ! 2 ! 0, real (swap_count ?d2), real (swap_count ?d2),
                         led2 ! 2 ! 3]"
    by blast
  from Check04_ok[OF s3, of ?d3] obtain led4 where
    c4: "Check04_TmaxTminRange ?d3 led3 = Inr (?d4, led4)"
    and o4: "led4 ! 0 = led3 ! 0" "led4 ! 1 = led3 ! 1" "led4 ! 2 = led3 ! 2"
    and r4: "led4 ! 3 = [led3 ! 3 ! 0, real (range_count ?d3), real (range_count ?d3),
                         led3 ! 3 ! 3]"
    by blast
  have run: "run_checks df new_ledger = Inr (?d4, led4)"
    by (rule run_checks_steps[OF c1 c2 c3 c4])
  have z0: "led4 ! 0 = [0, 0, 0, 0]"
    by (simp only: o4 o3 o2) (simp add: new_ledger_rows)
  have z1: "led4 ! 1 = led2 ! 1"
    by (simp only: o4 o3)
  have z2: "led4 ! 2 = led3 ! 2"
    by (rule o4(3))
  have z3: "led4 ! 2 ! 0 = 0" "led4 ! 2 ! 3 = 0"
    by (simp_all only: o4 r3 o2) (simp_all add: new_ledger_rows)
  have z4: "led4 ! 3 ! 0 = 0" "led4 ! 3 ! 3 = 0"
    by (simp_all only: r4 o3 o2) (simp_all add: new_ledger_rows)
  have p6: "\<exists>df1 led1 df2 led2 df3 led3 df4 led4.
        Check01_RemoveNoDataValues df new_ledger = Inr (df1, led1) \<and>
        Check02_GrossErrors df1 led1 = Inr (df2, led2) \<and>
        Check03_TmaxTminSwapped df2 led2 = Inr (df3, led3) \<and>
        Check04_TmaxTminRange df3 led3 = Inr (df4, led4) \<and>
        run_checks df new_ledger = Inr (df4, led4) \<and>
        led4 ! 0 = [0, 0, 0, 0] \<and> led4 ! 1 = led2 ! 1 \<and> led4 ! 2 = led3 ! 2 \<and>
        led4 ! 2 ! 0 = 0 \<and> led4 ! 2 ! 3 = 0 \<and> led4 ! 3 ! 0 = 0 \<and> led4 ! 3 ! 3 = 0"
    by (rule exI[of _ ?d1], rule exI[of _ new_ledger], rule exI[of _ ?d2],
        rule exI[of _ led2], rule exI[of _ ?d3], rule exI[of _ led3], rule exI[of _ ?d4],
        rule exI[of _ led4])
       (rule conjI[OF c1 conjI[OF c2 conjI[OF c3 conjI[OF c4 conjI[OF run conjI[OF z0
          conjI[OF z1 conjI[OF z2 conjI[OF z3(1) conjI[OF z3(2) conjI[OF z4(1) z4(2)]]]]]]]]]]])
  show ?thesis
    by (rule conjI[OF p1 conjI[OF p2 conjI[OF p3 conjI[OF p4 conjI[OF p5 p6]]]]])
qed

text \<open>
  The claim on the loader's result for a file of three rows: the ledger starts as zeros,
  and after the four checks row \<open>No Data\<close> is still zero while each other row holds the
  counts of its own check.
\<close>

theorem ledger_frame_witness:
  "ledger_shape new_ledger \<and>
   ReadData Inr example_files ''DataQualityChecking.txt'' = Inr (mixed_example, new_ledger) \<and>
   new_ledger = [[0, 0, 0, 0], [0, 0, 0, 0], [0, 0, 0, 0], [0, 0, 0, 0]] \<and>
   (\<exists>df4 led4. run_checks mixed_example new_ledger = Inr (df4, led4) \<and>
      led4 ! 0 = [0, 0, 0, 0] \<and>
      led4 = [[0, 0, 0, 0], [1, 1, 0, 0], [0, 1, 1, 0], [0, 1, 1, 0]])"
proof -
  note f = ledger_frame[OF ledger_shape_new, of mixed_example Inr example_files
      "''DataQualityChecking.txt''" mixed_example new_ledger]
  have rd: "ReadData Inr example_files ''DataQualityChecking.txt'' =
      Inr (mixed_example, new_ledger)"
    by (rule ReadData_example_files)
  from f rd have z: "new_ledger = [[0, 0, 0, 0], [0, 0, 0, 0], [0, 0, 0, 0], [0, 0, 0, 0]]"
    by blast
  from f obtain df4 led4 where
    run: "run_checks mixed_example new_ledger = Inr (df4, led4)"
    and z0: "led4 ! 0 = [0, 0, 0, 0]"
    by blast
  have l4: "led4 = [[0, 0, 0, 0], [1, 1, 0, 0], [0, 1, 1, 0], [0, 1, 1, 0]]"
    using run by (simp add: run_checks_mixed_example)
  have "\<exists>df4 led4. run_checks mixed_example new_ledger = Inr (df4, led4) \<and>
      led4 ! 0 = [0, 0, 0, 0] \<and>
      led4 = [[0, 0, 0, 0], [1, 1, 0, 0], [0, 1, 1, 0], [0, 1, 1, 0]]"
    by (rule exI[of _ df4], rule exI[of _ led4]) (rule conjI[OF run conjI[OF z0 l4]])
  then show ?thesis
    by (rule conjI[OF ledger_shape_new conjI[OF rd conjI[OF z]]])
qed

section \<open>The loader and its argument\<close>

lemma ReadData_fixed_file:
  "fs ''DataQualityChecking.txt'' = fs' ''DataQualityChecking.txt'' \<Longrightarrow>
   ReadData read_csv fs p = ReadData read_csv fs' q"
  by (simp add: ReadData_def)

text \<open>
  Claim C10. The result of \<open>ReadData\<close> does not depend on its argument: any two paths give
  the same result, and two file systems that agree on \<open>DataQualityChecking.txt\<close> give the
  same result whatever the paths. The frame the driver loads as the original copy is the
  frame \<open>ReadData\<close> returns for any path.
\<close>

theorem ReadData_ignores_fileName:
  "ReadData read_csv fs p = ReadData read_csv fs q \<and>
   (fs ''DataQualityChecking.txt'' = fs' ''DataQualityChecking.txt'' \<longrightarrow>
      ReadData read_csv fs p = ReadData read_csv fs' q) \<and>
   (main read_csv fs = Inr (corrected, original, counts) \<longrightarrow>
      ReadData read_csv fs p = Inr (original, new_ledger))"
proof -
  have a: "ReadData read_csv fs p = ReadData read_csv fs q"
    by (rule ReadData_fixed_file) (rule refl)
  have b: "fs ''DataQualityChecking.txt'' = fs' ''DataQualityChecking.txt'' \<longrightarrow>
      ReadData read_csv fs p = ReadData read_csv fs' q"
    by (rule impI) (rule ReadData_fixed_file)
  have c: "main read_csv fs = Inr (corrected, original, counts) \<longrightarrow>
      ReadData read_csv fs p = Inr (original, new_ledger)"
    by (auto simp: main_def and_then_def ReadData_def split: option.splits sum.splits)
  show ?thesis by (rule conjI[OF a conjI[OF b c]])
qed

text \<open>
  The claim on a file system holding the three-row file: a second file and another path
  change nothing, and the driver's original copy is the file as loaded.
\<close>

theorem ReadData_ignores_fileName_witness:
  "example_files ''DataQualityChecking.txt'' =
     (example_files(''Other.txt'' \<mapsto> [])) ''DataQualityChecking.txt'' \<and>
   ReadData Inr example_files ''DataQualityChecking.txt'' =
     ReadData Inr (example_files(''Other.txt'' \<mapsto> [])) ''Other.txt'' \<and>
   ReadData Inr example_files ''Other.txt'' = Inr (mixed_example, new_ledger) \<and>
   (\<exists>corrected counts. main Inr example_files = Inr (corrected, mixed_example, counts))"
proof -
  have same: "example_files ''DataQualityChecking.txt'' =
     (example_files(''Other.txt'' \<mapsto> [])) ''DataQualityChecking.txt''"
    by simp
  have m: "main Inr example_files =
      Inr ([\<lparr>Date = (2020, 1, 1), precip = None, max_temp = Some 20, min_temp = Some 10,
             wind_speed = Some 5\<rparr>,
           \<lparr>Date = (2020, 1, 2), precip = None, max_temp = None, min_temp = Some 0,
             wind_speed = None\<rparr>,
           \<lparr>Date = (2020, 1, 3), precip = Some 2, max_temp = None, min_temp = None,
             wind_speed = Some 3\<rparr>], mixed_example,
          [[0, 0, 0, 0], [1, 1, 0, 0], [0, 1, 1, 0], [0, 1, 1, 0]])"
    by (simp add: main_def and_then_def ReadData_example_files run_checks_mixed_example)
  note t = ReadData_ignores_fileName[of Inr example_files "''DataQualityChecking.txt''"
      "''Other.txt''" "example_files(''Other.txt'' \<mapsto> [])" _ mixed_example _
      , unfolded m]
  from t same have e: "ReadData Inr example_files ''DataQualityChecking.txt'' =
     ReadData Inr (example_files(''Other.txt'' \<mapsto> [])) ''Other.txt''"
    by blast
  from t have "ReadData Inr example_files ''DataQualityChecking.txt'' =
      Inr (mixed_example, new_ledger)"
    by blast
  with t have o: "ReadData Inr example_files ''Other.txt'' = Inr (mixed_example, new_ledger)"
    by simp
  have x: "\<exists>corrected counts. main Inr example_files = Inr (corrected, mixed_example, counts)"
    using m by blast
  show ?thesis by (rule conjI[OF same conjI[OF e conjI[OF o x]]])
qed

section \<open>Ledger rows and changed cells\<close>

lemma cell_changes_Nil: "cell_changes [] [] = 0"
  by (simp add: cell_changes_def)

lemma cell_changes_Cons:
  "cell_changes (r # df) (r' # df') =
   length (filter (\<lambda>v. value_of v r \<noteq> value_of v r') colNames) + cell_changes df df'"
  by (simp add: cell_changes_def)

lemma gross_error_not_None: "gross_error v c \<Longrightarrow> c \<noteq> None"
  by (cases c) (simp_all add: gross_error_def)

lemma gross_rows_changed:
  "(value_of v r \<noteq> value_of v (gross_rows r)) = gross_error v (value_of v r)"
  using gross_error_not_None[of v "value_of v r"]
  by (auto simp only: value_of_gross_rows_all split: if_splits)

lemma gross_changes_row:
  "length (filter (\<lambda>v. value_of v r \<noteq> value_of v (gross_rows r)) colNames) =
   length (filter (\<lambda>v. gross_error v (value_of v r)) colNames)"
  by (simp only: gross_rows_changed)

lemma Check02_changes:
  "real (cell_changes df (map gross_rows df)) =
   sum_list (map (\<lambda>v. real (length (filter (\<lambda>r. gross_error v (value_of v r)) df))) colNames)"
proof (induction df)
  case Nil
  show ?case by (simp add: cell_changes_Nil colNames_def)
next
  case (Cons r df)
  have "real (cell_changes (r # df) (map gross_rows (r # df))) =
      real (length (filter (\<lambda>v. gross_error v (value_of v r)) colNames)) +
      real (cell_changes df (map gross_rows df))"
    by (simp add: cell_changes_Cons gross_changes_row del: value_of.simps)
  also have "\<dots> = sum_list (map (\<lambda>v. real (length (filter (\<lambda>r. gross_error v (value_of v r))
      (r # df)))) colNames)"
    unfolding Cons.IH by (simp add: colNames_def)
  finally show ?case .
qed

lemma swap_changes_row:
  "length (filter (\<lambda>v. value_of v r \<noteq> value_of v (swap_row r)) colNames) =
   (if swapped r then 2 else 0)"
  by (auto simp: swap_row_def swapped_iff colNames_def)

lemma Check03_changes: "cell_changes df (map swap_row df) = 2 * swap_count df"
  by (induction df) (simp_all add: cell_changes_Nil cell_changes_Cons swap_changes_row
      swap_count_def del: value_of.simps)

lemma range_changes_row:
  "length (filter (\<lambda>v. value_of v r \<noteq> value_of v (range_row r)) colNames) =
   (if spread_fails r then 2 else 0)"
  by (auto simp: range_row_def spread_fails_iff colNames_def)

lemma Check04_changes: "cell_changes df (map range_row df) = 2 * range_count df"
  by (induction df) (simp_all add: cell_changes_Nil cell_changes_Cons range_changes_row
      range_count_def del: value_of.simps)

text \<open>
  Checks 2, 3 and 4, run by the driver on the ledger of the loader: the sum of the row of
  each equals the number of cells it changed.
\<close>

lemma later_checks_reconcile:
  "\<exists>df1 led1 df2 led2 df3 led3 df4 led4.
     Check01_RemoveNoDataValues df new_ledger = Inr (df1, led1) \<and>
     Check02_GrossErrors df1 led1 = Inr (df2, led2) \<and>
     Check03_TmaxTminSwapped df2 led2 = Inr (df3, led3) \<and>
     Check04_TmaxTminRange df3 led3 = Inr (df4, led4) \<and>
     sum_list (led2 ! 1) = real (cell_changes df1 df2) \<and>
     sum_list (led3 ! 2) = real (cell_changes df2 df3) \<and>
     sum_list (led4 ! 3) = real (cell_changes df3 df4)"
proof -
  let ?d1 = "map (sentinel_row (- 999)) df"
  let ?d2 = "map gross_rows ?d1"
  let ?d3 = "map swap_row ?d2"
  let ?d4 = "map range_row ?d3"
  have c1: "Check01_RemoveNoDataValues df new_ledger = Inr (?d1, new_ledger)"
    by (rule Check01_rows)
  from Check02_ok[OF ledger_shape_new, of ?d1] obtain led2 where
    c2: "Check02_GrossErrors ?d1 new_ledger = Inr (?d2, led2)" and s2: "ledger_shape led2"
    and o2: "led2 ! 2 = new_ledger ! 2" "led2 ! 3 = new_ledger ! 3"
    and r2: "led2 ! 1 = map (\<lambda>v. real (length (filter (\<lambda>r. gross_error v (value_of v r)) ?d1)))
               colNames"
    by blast
  from Check03_ok[OF s2, of ?d2] obtain led3 where
    c3: "Check03_TmaxTminSwapped ?d2 led2 = Inr (?d3, led3)" and s3: "ledger_shape led3"
    and o3: "led3 ! 3 = led2 ! 3"
    and r3: "led3 ! 2 = [led2 ! 2 ! 0, real (swap_count ?d2), real (swap_count ?d2),
                         led2 ! 2 ! 3]"
    by blast
  from Check04_ok[OF s3, of ?d3] obtain led4 where
    c4: "Check04_TmaxTminRange ?d3 led3 = Inr (?d4, led4)"
    and r4: "led4 ! 3 = [led3 ! 3 ! 0, real (range_count ?d3), real (range_count ?d3),
                         led3 ! 3 ! 3]"
    by blast
  have e2: "sum_list (led2 ! 1) = real (cell_changes ?d1 ?d2)"
    by (simp only: r2 Check02_changes)
  have e3: "sum_list (led3 ! 2) = real (cell_changes ?d2 ?d3)"
    by (simp only: r3 o2 Check03_changes) (simp add: new_ledger_rows)
  have e4: "sum_list (led4 ! 3) = real (cell_changes ?d3 ?d4)"
    by (simp only: r4 o3 o2 Check04_changes) (simp add: new_ledger_rows)
  show ?thesis
    by (rule exI[of _ ?d1], rule exI[of _ new_ledger], rule exI[of _ ?d2],
        rule exI[of _ led2], rule exI[of _ ?d3], rule exI[of _ led3], rule exI[of _ ?d4],
        rule exI[of _ led4])
       (rule conjI[OF c1 conjI[OF c2 conjI[OF c3 conjI[OF c4 conjI[OF e2 conjI[OF e3 e4]]]]]])
qed

end
